theory Spec2Isabelle
  imports Main
begin

section \<open>Configuration management of the OAuth2/OIDC SASL plugin\<close>

text \<open>
  A shallow embedding of \<^verbatim>\<open>oauth2_config.c\<close>. C strings are \<open>string\<close>s (the bytes
  before the terminating NUL); a \<^verbatim>\<open>const char *\<close> that may be NULL is a \<open>string option\<close>.
  \<^verbatim>\<open>malloc\<close> and \<^verbatim>\<open>strdup\<close> are taken to succeed, so the clean-up branches that only
  run when an allocation returns NULL have no counterpart here. Counters of C type
  \<^verbatim>\<open>int\<close> that count tokens of a setting are natural numbers: a setting value holds far
  fewer than \<open>2^31\<close> tokens.
\<close>

subsection \<open>String lists: \<^verbatim>\<open>oauth2_parse_string_list\<close>\<close>

text \<open>
  One slot of a \<^verbatim>\<open>char **\<close> array: fresh from \<^verbatim>\<open>malloc\<close> and never written, the NULL
  pointer, or a pointer to an owned copy of a string.
\<close>

datatype char_ptr = Uninit | NULL | Ptr string

text \<open>The separator argument \<^verbatim>\<open>" \t\n"\<close> of every \<^verbatim>\<open>strtok\<close> call.\<close>

definition delims :: string where
  "delims = [CHR '' '', CHR 0x09, CHR 0x0A]"

text \<open>
  \<^verbatim>\<open>strtok\<close> of the C library, with its hidden save pointer made explicit: the argument is
  the text at the save pointer, the result is the token (None for NULL) and the text at
  the new save pointer. Leading separators are skipped; the token runs to the next
  separator, which is overwritten by NUL and stepped over.
\<close>

definition strtok :: "string \<Rightarrow> string \<Rightarrow> string option \<times> string" where
  "strtok delim s =
     (let s1 = dropWhile (\<lambda>c. c \<in> set delim) s in
      if s1 = [] then (None, [])
      else (Some (takeWhile (\<lambda>c. c \<notin> set delim) s1),
            drop 1 (dropWhile (\<lambda>c. c \<notin> set delim) s1)))"

text \<open>The measure of both token loops: nothing is left once \<^verbatim>\<open>strtok\<close> returned NULL.\<close>

fun tok_measure :: "string option \<times> string \<Rightarrow> nat" where
  "tok_measure (None, saved) = 0"
| "tok_measure (Some tok, saved) = Suc (length saved)"

lemma strtok_shorter: "tok_measure (strtok delim saved) < Suc (length saved)"
proof -
  let ?s1 = "dropWhile (\<lambda>c. c \<in> set delim) saved"
  have a: "length ?s1 \<le> length saved"
    by (rule length_dropWhile_le)
  have b: "length (dropWhile (\<lambda>c. c \<notin> set delim) ?s1) \<le> length ?s1"
    by (rule length_dropWhile_le)
  show ?thesis
  proof (cases "?s1 = []")
    case True
    then show ?thesis by (simp add: strtok_def)
  next
    case False
    then have c: "0 < length ?s1"
      by simp
    have "tok_measure (strtok delim saved) =
        Suc (length (dropWhile (\<lambda>c. c \<notin> set delim) ?s1) - 1)"
      using False by (simp add: strtok_def Let_def del: dropWhile_eq_Nil_conv)
    with a b c show ?thesis by linarith
  qed
qed

text \<open>
  The counting pass (lines 26-31): \<^verbatim>\<open>while (token) { item_count++; token = strtok(NULL, ...); }\<close>.
  The first argument is the loop state: the current token and the save pointer.
\<close>

function count_loop :: "string option \<times> string \<Rightarrow> nat \<Rightarrow> nat" where
  "count_loop (None, saved) item_count = item_count"
| "count_loop (Some token, saved) item_count = count_loop (strtok delims saved) (Suc item_count)"
  by pat_completeness auto
termination
  by (relation "measure (\<lambda>(st, n). tok_measure st)") (auto simp: strtok_shorter)

text \<open>
  The filling pass (lines 46-61):
  \<^verbatim>\<open>while ((token != NULL) && (i < item_count)) { list[i] = strdup(token); i++; token = strtok(NULL, ...); }\<close>.
  It returns the final index and the array.
\<close>

function fill_loop ::
  "string option \<times> string \<Rightarrow> nat \<Rightarrow> nat \<Rightarrow> char_ptr list \<Rightarrow> nat \<times> char_ptr list" where
  "fill_loop (None, saved) i item_count list = (i, list)"
| "fill_loop (Some token, saved) i item_count list =
     (if i < item_count
      then fill_loop (strtok delims saved) (Suc i) item_count (list[i := Ptr token])
      else (i, list))"
  by pat_completeness auto
termination
  by (relation "measure (\<lambda>(st, i, n, l). tok_measure st)") (auto simp: strtok_shorter)

text \<open>
  \<^verbatim>\<open>char **oauth2_parse_string_list(const char *input, int *count)\<close>: the returned pointer
  (None for NULL) and the value left in \<^verbatim>\<open>*count\<close>.
\<close>

definition oauth2_parse_string_list :: "string option \<Rightarrow> char_ptr list option \<times> nat" where
  "oauth2_parse_string_list input =
     (case input of
        None \<Rightarrow> (None, 0)
      | Some s \<Rightarrow>
          if length s = 0 then (None, 0)
          else
            let item_count = count_loop (strtok delims s) 0 in
            if item_count = 0 then (None, 0)
            else
              let list = replicate (item_count + 1) Uninit;
                  (i, list') = fill_loop (strtok delims s) 0 item_count list
              in (Some (list'[i := NULL]), item_count))"

text \<open>
  The specification's words, to compare the code with: the whitespace-separated tokens of a
  string are the maximal runs of characters other than space, tab and newline, in their
  order. \<open>cur\<close> is the run read so far.
\<close>

fun split_ws :: "string \<Rightarrow> string \<Rightarrow> string list" where
  "split_ws cur [] = (if cur = [] then [] else [cur])"
| "split_ws cur (c # cs) =
     (if c = CHR '' '' \<or> c = CHR 0x09 \<or> c = CHR 0x0A
      then (if cur = [] then [] else [cur]) @ split_ws [] cs
      else split_ws (cur @ [c]) cs)"

definition ws_tokens :: "string \<Rightarrow> string list" where
  "ws_tokens s = split_ws [] s"

subsection \<open>The settings store and the scalar readers\<close>

text \<open>
  The keys of the settings the loader reads. The header that defines the
  \<^verbatim>\<open>OAUTH2_CONF_*\<close> macros is not among the sources, so a key is the macro the code
  names, and the host's settings store is a function of these keys: different macros
  are taken to name different settings.
\<close>

datatype conf_key =
    OAUTH2_CONF_DISCOVERY_URLS | OAUTH2_CONF_DISCOVERY_URL
  | OAUTH2_CONF_ISSUERS | OAUTH2_CONF_ISSUER
  | OAUTH2_CONF_CLIENT_ID | OAUTH2_CONF_CLIENT_SECRET
  | OAUTH2_CONF_AUDIENCES | OAUTH2_CONF_AUDIENCE
  | OAUTH2_CONF_SCOPE | OAUTH2_CONF_USER_CLAIM | OAUTH2_CONF_VERIFY_SIGNATURE
  | OAUTH2_CONF_SSL_VERIFY | OAUTH2_CONF_TIMEOUT | OAUTH2_CONF_DEBUG

text \<open>The result codes of \<^verbatim>\<open>sasl.h\<close> that the file returns.\<close>

definition SASL_OK :: int where "SASL_OK = 0"
definition SASL_FAIL :: int where "SASL_FAIL = - 1"
definition SASL_BADPARAM :: int where "SASL_BADPARAM = - 7"

text \<open>
  \<^verbatim>\<open>sasl_utils_t\<close>, as far as this file uses it: the \<^verbatim>\<open>getopt\<close> callback, called as
  \<^verbatim>\<open>utils->getopt(utils->getopt_context, "oauth2", key, &value, NULL)\<close>, gives its result
  code and the pointer it stored in \<^verbatim>\<open>value\<close>.
\<close>

record sasl_utils =
  getopt :: "conf_key \<Rightarrow> int \<times> string option"

definition oauth2_config_get_string ::
  "sasl_utils \<Rightarrow> conf_key \<Rightarrow> string option \<Rightarrow> string option" where
  "oauth2_config_get_string utils key default_value =
     (case getopt utils key of
        (rc, value) \<Rightarrow> if rc = SASL_OK \<and> value \<noteq> None then value else default_value)"

text \<open>Limits of \<^verbatim>\<open>limits.h\<close> on the LP64 platforms the plugin is built for.\<close>

definition INT_MAX :: int where "INT_MAX = 2147483647"
definition INT_MIN :: int where "INT_MIN = - 2147483648"
definition LONG_MAX :: int where "LONG_MAX = 9223372036854775807"
definition LONG_MIN :: int where "LONG_MIN = - 9223372036854775808"

text \<open>\<^verbatim>\<open>isspace\<close> and \<^verbatim>\<open>isdigit\<close> in the C locale.\<close>

definition isspace :: "char \<Rightarrow> bool" where
  "isspace c = (c = CHR '' '' \<or> (9 \<le> (of_char c :: nat) \<and> (of_char c :: nat) \<le> 13))"

definition isdigit :: "char \<Rightarrow> bool" where
  "isdigit c = (48 \<le> (of_char c :: nat) \<and> (of_char c :: nat) \<le> 57)"

text \<open>
  \<^verbatim>\<open>strtol(nptr, &endptr, 10)\<close>: the value and \<^verbatim>\<open>endptr - nptr\<close>. White space is
  skipped, one sign is read, then the digits; with no digit nothing is converted and
  \<^verbatim>\<open>endptr = nptr\<close>. A value outside \<^verbatim>\<open>long\<close> is clamped to \<^verbatim>\<open>LONG_MAX\<close> or
  \<^verbatim>\<open>LONG_MIN\<close>.
\<close>

definition strtol :: "string \<Rightarrow> int \<times> nat" where
  "strtol nptr =
     (let s1 = dropWhile isspace nptr;
          negative = (s1 \<noteq> [] \<and> hd s1 = CHR ''-'');
          s2 = (if s1 \<noteq> [] \<and> (hd s1 = CHR ''-'' \<or> hd s1 = CHR ''+'') then tl s1 else s1);
          digits = takeWhile isdigit s2
      in if digits = [] then (0, 0)
         else
           let acc = foldl (\<lambda>a c. 10 * a + (int (of_char c) - 48)) 0 digits;
               v = (if negative then - acc else acc)
           in (if v > LONG_MAX then LONG_MAX else if v < LONG_MIN then LONG_MIN else v,
               length nptr - length (dropWhile isdigit s2)))"

text \<open>The conversion \<^verbatim>\<open>(int)parsed_value\<close> of a \<^verbatim>\<open>long\<close>: the low 32 bits, signed.\<close>

definition int_of_long :: "int \<Rightarrow> int" where
  "int_of_long v = (v + 2 ^ 31) mod 2 ^ 32 - 2 ^ 31"

definition oauth2_config_get_int :: "sasl_utils \<Rightarrow> conf_key \<Rightarrow> int \<Rightarrow> int" where
  "oauth2_config_get_int utils key default_value =
     (case getopt utils key of
        (rc, Some value) \<Rightarrow>
          if rc = SASL_OK then
            (case strtol value of
               (parsed_value, endptr) \<Rightarrow>
                 if endptr = 0 \<or> endptr < length value then default_value
                 else if parsed_value > INT_MAX \<or> parsed_value < INT_MIN then default_value
                 else int_of_long parsed_value)
          else default_value
      | (rc, None) \<Rightarrow> default_value)"

text \<open>\<^verbatim>\<open>tolower\<close> in the C locale and \<^verbatim>\<open>strcasecmp\<close> built on it.\<close>

definition tolower :: "char \<Rightarrow> char" where
  "tolower c =
     (if 65 \<le> (of_char c :: nat) \<and> (of_char c :: nat) \<le> 90
      then char_of ((of_char c :: nat) + 32) else c)"

fun strcasecmp :: "string \<Rightarrow> string \<Rightarrow> int" where
  "strcasecmp [] [] = 0"
| "strcasecmp [] (y # ys) = - int (of_char (tolower y))"
| "strcasecmp (x # xs) [] = int (of_char (tolower x))"
| "strcasecmp (x # xs) (y # ys) =
     (if tolower x = tolower y then strcasecmp xs ys
      else int (of_char (tolower x)) - int (of_char (tolower y)))"

definition oauth2_config_get_bool :: "sasl_utils \<Rightarrow> conf_key \<Rightarrow> int \<Rightarrow> int" where
  "oauth2_config_get_bool utils key default_value =
     (case getopt utils key of
        (rc, Some value) \<Rightarrow>
          if rc = SASL_OK then
            (if strcasecmp value ''yes'' = 0 \<or> strcasecmp value ''true'' = 0
                \<or> strcasecmp value ''1'' = 0 then 1 else 0)
          else default_value
      | (rc, None) \<Rightarrow> default_value)"

subsection \<open>The configuration and its loader\<close>

text \<open>
  \<^verbatim>\<open>oauth2_config_t\<close> with the fields this file reads and writes. A \<^verbatim>\<open>char **\<close> is
  None for NULL, else the slots of the array; \<^verbatim>\<open>oauth2_log\<close> tells whether the
  liboauth2 logging context is there.
\<close>

record oauth2_config =
  discovery_urls :: "char_ptr list option"
  discovery_urls_count :: nat
  issuers :: "char_ptr list option"
  issuers_count :: nat
  audiences :: "char_ptr list option"
  audiences_count :: nat
  client_id :: "string option"
  client_secret :: "string option"
  scope :: "string option"
  user_claim :: "string option"
  verify_signature :: int
  ssl_verify :: int
  timeout :: int
  debug :: int
  oauth2_log :: bool

text \<open>
  \<^verbatim>\<open>oauth2_config_init\<close>: the structure after \<^verbatim>\<open>memset(config, 0, ...)\<close>, with the
  logging context of \<^verbatim>\<open>oauth2_init\<close>; NULL when \<^verbatim>\<open>oauth2_init\<close> gave none (the
  argument says whether it did).
\<close>

definition zeroed_config :: oauth2_config where
  "zeroed_config =
     \<lparr>discovery_urls = None, discovery_urls_count = 0,
      issuers = None, issuers_count = 0,
      audiences = None, audiences_count = 0,
      client_id = None, client_secret = None, scope = None, user_claim = None,
      verify_signature = 0, ssl_verify = 0, timeout = 0, debug = 0,
      oauth2_log = False\<rparr>"

definition oauth2_config_init :: "bool \<Rightarrow> oauth2_config option" where
  "oauth2_config_init log_context =
     (if \<not> log_context then None else Some (zeroed_config\<lparr>oauth2_log := True\<rparr>))"

text \<open>
  The \<^verbatim>\<open>OAUTH2_DEFAULT_*\<close> macros come from the same missing header; the loader takes
  their values as a parameter.
\<close>

record oauth2_defaults =
  OAUTH2_DEFAULT_SCOPE :: string
  OAUTH2_DEFAULT_USER_CLAIM :: string
  OAUTH2_DEFAULT_VERIFY_SIGNATURE :: int
  OAUTH2_DEFAULT_SSL_VERIFY :: int
  OAUTH2_DEFAULT_TIMEOUT :: int
  OAUTH2_DEFAULT_DEBUG :: int

text \<open>
  Every failing exit of the loader returns \<^verbatim>\<open>SASL_FAIL\<close> after one
  \<^verbatim>\<open>OAUTH2_LOG_ERR\<close> call; the message of that call, with its key arguments, is what
  tells the exits apart:
  \<^item> \<^verbatim>\<open>"Cannot configure both %s and %s - use only one form"\<close>,
  \<^item> \<^verbatim>\<open>"Either %s/%s or %s/%s must be configured"\<close>,
  \<^item> \<^verbatim>\<open>"%s must be configured"\<close>.
\<close>

datatype config_error =
    Cannot_configure_both conf_key conf_key
  | Either_must_be_configured conf_key conf_key conf_key conf_key
  | Must_be_configured conf_key

text \<open>
  What a call of the loader does: it returns a code, after logging at most one error,
  and leaves \<^verbatim>\<open>*config\<close> in some state (None when \<^verbatim>\<open>config\<close> was NULL); or it reads
  a slot of the issuer array that holds no string, which C leaves undefined.
\<close>

datatype load_result =
    Returns int "config_error option" "oauth2_config option"
  | Invalid_read

fun sasl_code :: "load_result \<Rightarrow> int option" where
  "sasl_code (Returns rc e c) = Some rc"
| "sasl_code Invalid_read = None"

fun logged_error :: "load_result \<Rightarrow> config_error option" where
  "logged_error (Returns rc e c) = e"
| "logged_error Invalid_read = None"

fun config_after :: "load_result \<Rightarrow> oauth2_config option" where
  "config_after (Returns rc e c) = c"
| "config_after Invalid_read = None"

text \<open>
  Lines 189-201: the discovery URL settings. A stage of the loader gives \<open>Inl\<close> of the
  result when it returns from the function and \<open>Inr\<close> of the configuration when control
  goes on.
\<close>

definition load_discovery_urls :: "sasl_utils \<Rightarrow> oauth2_config \<Rightarrow> load_result + oauth2_config" where
  "load_discovery_urls utils config =
     (let discovery_urls_str = oauth2_config_get_string utils OAUTH2_CONF_DISCOVERY_URLS None;
          discovery_url_str = oauth2_config_get_string utils OAUTH2_CONF_DISCOVERY_URL None
      in if discovery_urls_str \<noteq> None \<and> discovery_url_str \<noteq> None
         then Inl (Returns SASL_FAIL
                (Some (Cannot_configure_both OAUTH2_CONF_DISCOVERY_URLS OAUTH2_CONF_DISCOVERY_URL))
                (Some config))
         else if discovery_urls_str \<noteq> None
         then (case oauth2_parse_string_list discovery_urls_str of
                 (list, count) \<Rightarrow>
                   Inr (config\<lparr>discovery_urls := list, discovery_urls_count := count\<rparr>))
         else if discovery_url_str \<noteq> None
         then (case oauth2_parse_string_list discovery_url_str of
                 (list, count) \<Rightarrow>
                   Inr (config\<lparr>discovery_urls := list, discovery_urls_count := count\<rparr>))
         else Inr config)"

text \<open>Lines 203-223: the issuer settings, and the check that a provider is configured.\<close>

definition load_issuers :: "sasl_utils \<Rightarrow> oauth2_config \<Rightarrow> load_result + oauth2_config" where
  "load_issuers utils config =
     (let issuers_str = oauth2_config_get_string utils OAUTH2_CONF_ISSUERS None;
          issuer_str = oauth2_config_get_string utils OAUTH2_CONF_ISSUER None
      in if issuers_str \<noteq> None \<and> issuer_str \<noteq> None
         then Inl (Returns SASL_FAIL
                (Some (Cannot_configure_both OAUTH2_CONF_ISSUERS OAUTH2_CONF_ISSUER))
                (Some config))
         else
           let config =
                 (if issuers_str \<noteq> None
                  then (case oauth2_parse_string_list issuers_str of
                          (list, count) \<Rightarrow> config\<lparr>issuers := list, issuers_count := count\<rparr>)
                  else if issuer_str \<noteq> None
                  then (case oauth2_parse_string_list issuer_str of
                          (list, count) \<Rightarrow> config\<lparr>issuers := list, issuers_count := count\<rparr>)
                  else config)
           in if discovery_urls config = None \<and> issuers config = None
              then Inl (Returns SASL_FAIL
                     (Some (Either_must_be_configured
                        OAUTH2_CONF_DISCOVERY_URLS OAUTH2_CONF_DISCOVERY_URL
                        OAUTH2_CONF_ISSUERS OAUTH2_CONF_ISSUER))
                     (Some config))
              else Inr config)"

text \<open>
  \<^verbatim>\<open>snprintf(buf, size, "%s...", ...)\<close> keeps at most \<open>size - 1\<close> characters of the
  formatted text.
\<close>

definition snprintf :: "nat \<Rightarrow> string \<Rightarrow> string" where
  "snprintf n formatted = take (n - 1) formatted"

definition well_known :: string where
  "well_known = ''/.well-known/openid-configuration''"

text \<open>The body of the loop of lines 234-257 for one issuer: the text of its discovery URL.\<close>

definition issuer_discovery_url :: "string \<Rightarrow> string" where
  "issuer_discovery_url issuer =
     (let issuer_len = length issuer;
          clean_issuer =
            (if issuer_len > 0 \<and> issuer ! (issuer_len - 1) = CHR ''/''
             then take (issuer_len - 1) issuer else issuer);
          len = length clean_issuer + length well_known + 1
      in snprintf len (clean_issuer @ well_known))"

text \<open>
  \<^verbatim>\<open>for (int i = 0; i < config->issuers_count; i++)\<close>: slot \<open>i\<close> of the issuer array is
  read and slot \<open>i\<close> of the new array written. None when the slot read is outside the
  array or holds no string.
\<close>

function discovery_loop ::
  "nat \<Rightarrow> nat \<Rightarrow> char_ptr list \<Rightarrow> char_ptr list \<Rightarrow> char_ptr list option" where
  "discovery_loop i count iss urls =
     (if i < count then
        (if i < length iss then
           (case iss ! i of
              Ptr issuer \<Rightarrow>
                discovery_loop (Suc i) count iss (urls[i := Ptr (issuer_discovery_url issuer)])
            | _ \<Rightarrow> None)
         else None)
      else Some urls)"
  by pat_completeness auto
termination
  by (relation "measure (\<lambda>(i, count, iss, urls). count - i)") auto

text \<open>Lines 225-258: discovery URLs made from the issuers when none were configured.\<close>

definition construct_discovery_urls :: "oauth2_config \<Rightarrow> load_result + oauth2_config" where
  "construct_discovery_urls config =
     (case (discovery_urls config, issuers config) of
        (None, Some iss) \<Rightarrow>
          (case discovery_loop 0 (issuers_count config) iss
                  (replicate (issuers_count config) Uninit) of
             None \<Rightarrow> Inl Invalid_read
           | Some urls \<Rightarrow>
               Inr (config\<lparr>discovery_urls := Some urls,
                           discovery_urls_count := issuers_count config\<rparr>))
      | _ \<Rightarrow> Inr config)"

text \<open>Lines 260-267: the client credentials.\<close>

definition load_client_credentials ::
  "sasl_utils \<Rightarrow> oauth2_config \<Rightarrow> load_result + oauth2_config" where
  "load_client_credentials utils config =
     (let config = config
            \<lparr>client_id := oauth2_config_get_string utils OAUTH2_CONF_CLIENT_ID None,
             client_secret := oauth2_config_get_string utils OAUTH2_CONF_CLIENT_SECRET None\<rparr>
      in if client_id config = None
         then Inl (Returns SASL_FAIL (Some (Must_be_configured OAUTH2_CONF_CLIENT_ID))
                (Some config))
         else Inr config)"

text \<open>Lines 269-288: the audience settings.\<close>

definition load_audiences :: "sasl_utils \<Rightarrow> oauth2_config \<Rightarrow> load_result + oauth2_config" where
  "load_audiences utils config =
     (let audiences_str = oauth2_config_get_string utils OAUTH2_CONF_AUDIENCES None;
          audience_str = oauth2_config_get_string utils OAUTH2_CONF_AUDIENCE None
      in if audiences_str \<noteq> None \<and> audience_str \<noteq> None
         then Inl (Returns SASL_FAIL
                (Some (Cannot_configure_both OAUTH2_CONF_AUDIENCES OAUTH2_CONF_AUDIENCE))
                (Some config))
         else if audiences_str \<noteq> None
         then (case oauth2_parse_string_list audiences_str of
                 (list, count) \<Rightarrow> Inr (config\<lparr>audiences := list, audiences_count := count\<rparr>))
         else if audience_str \<noteq> None
         then (case oauth2_parse_string_list audience_str of
                 (list, count) \<Rightarrow> Inr (config\<lparr>audiences := list, audiences_count := count\<rparr>))
         else Inr config)"

text \<open>
  Lines 290-297: the scalar settings. The log level that lines 299-304 then set in
  liboauth2, and the messages logged below error level, are no part of the result.
\<close>

definition load_scalars :: "oauth2_defaults \<Rightarrow> sasl_utils \<Rightarrow> oauth2_config \<Rightarrow> oauth2_config" where
  "load_scalars dflt utils config =
     config
       \<lparr>scope := oauth2_config_get_string utils OAUTH2_CONF_SCOPE
                   (Some (OAUTH2_DEFAULT_SCOPE dflt)),
        user_claim := oauth2_config_get_string utils OAUTH2_CONF_USER_CLAIM
                   (Some (OAUTH2_DEFAULT_USER_CLAIM dflt)),
        verify_signature := oauth2_config_get_bool utils OAUTH2_CONF_VERIFY_SIGNATURE
                   (OAUTH2_DEFAULT_VERIFY_SIGNATURE dflt),
        ssl_verify := oauth2_config_get_bool utils OAUTH2_CONF_SSL_VERIFY
                   (OAUTH2_DEFAULT_SSL_VERIFY dflt),
        timeout := oauth2_config_get_int utils OAUTH2_CONF_TIMEOUT
                   (OAUTH2_DEFAULT_TIMEOUT dflt),
        debug := oauth2_config_get_bool utils OAUTH2_CONF_DEBUG
                   (OAUTH2_DEFAULT_DEBUG dflt)\<rparr>"

text \<open>
  \<^verbatim>\<open>int oauth2_config_load(oauth2_config_t *config, const sasl_utils_t *utils)\<close>: the
  stages in the order of the source, each able to return.
\<close>

definition oauth2_config_load ::
  "oauth2_defaults \<Rightarrow> oauth2_config option \<Rightarrow> sasl_utils option \<Rightarrow> load_result" where
  "oauth2_config_load dflt config utils =
     (case (config, utils) of
        (Some c, Some u) \<Rightarrow>
          (case load_discovery_urls u c of
             Inl r \<Rightarrow> r
           | Inr c1 \<Rightarrow>
          (case load_issuers u c1 of
             Inl r \<Rightarrow> r
           | Inr c2 \<Rightarrow>
          (case construct_discovery_urls c2 of
             Inl r \<Rightarrow> r
           | Inr c3 \<Rightarrow>
          (case load_client_credentials u c3 of
             Inl r \<Rightarrow> r
           | Inr c4 \<Rightarrow>
          (case load_audiences u c4 of
             Inl r \<Rightarrow> r
           | Inr c5 \<Rightarrow> Returns SASL_OK None (Some (load_scalars dflt u c5)))))))
      | _ \<Rightarrow> Returns SASL_BADPARAM None config)"

subsection \<open>The words of the specification about a configuration\<close>

text \<open>A setting is present when the settings store gives a value for its key.\<close>

definition present :: "sasl_utils \<Rightarrow> conf_key \<Rightarrow> bool" where
  "present utils key = (oauth2_config_get_string utils key None \<noteq> None)"

text \<open>Both the plural and the singular form of a setting family are present.\<close>

definition both_forms :: "sasl_utils \<Rightarrow> conf_key \<Rightarrow> conf_key \<Rightarrow> bool" where
  "both_forms utils plural singular = (present utils plural \<and> present utils singular)"

text \<open>
  The entries a setting family resolves to: the whitespace-separated tokens of the form
  that is present, the plural one first; none when neither is.
\<close>

definition entries :: "sasl_utils \<Rightarrow> conf_key \<Rightarrow> conf_key \<Rightarrow> string list" where
  "entries utils plural singular =
     (case oauth2_config_get_string utils plural None of
        Some v \<Rightarrow> ws_tokens v
      | None \<Rightarrow>
          (case oauth2_config_get_string utils singular None of
             Some v \<Rightarrow> ws_tokens v
           | None \<Rightarrow> []))"

text \<open>
  The configuration errors of the specification's taxonomy. The code returns
  \<^verbatim>\<open>SASL_FAIL\<close> for both; the logged message says which one an exit is: only one form
  of a setting may be configured, or a setting that must be configured is not.
\<close>

datatype ConfigError = ConflictingSetting | MissingRequired

fun error_kind :: "config_error \<Rightarrow> ConfigError" where
  "error_kind (Cannot_configure_both plural singular) = ConflictingSetting"
| "error_kind (Either_must_be_configured k1 k2 k3 k4) = MissingRequired"
| "error_kind (Must_be_configured key) = MissingRequired"

text \<open>
  The discovery endpoint of an issuer in the specification's words: one trailing
  \<open>/\<close> removed if there is one, then the discovery-document suffix appended.
\<close>

definition derived_endpoint :: "string \<Rightarrow> string" where
  "derived_endpoint issuer =
     (if issuer \<noteq> [] \<and> last issuer = CHR ''/'' then butlast issuer else issuer)
       @ ''/.well-known/openid-configuration''"

text \<open>A string array as the parser builds it from a list of tokens.\<close>

definition string_array :: "string list \<Rightarrow> char_ptr list option" where
  "string_array toks = (if toks = [] then None else Some (map Ptr toks @ [NULL]))"

text \<open>
  A value of a setting is a C string: no NUL byte occurs in it.
\<close>

definition c_string :: "string \<Rightarrow> bool" where
  "c_string s = (CHR 0x00 \<notin> set s)"

text \<open>
  Case-insensitive comparison in the specification's words: two characters are the same, or one
  is an ASCII capital and the other its small letter; two strings are equal when they
  are so character by character.
\<close>

definition same_ignoring_case :: "char \<Rightarrow> char \<Rightarrow> bool" where
  "same_ignoring_case a b =
     (a = b
      \<or> (65 \<le> (of_char a :: nat) \<and> (of_char a :: nat) \<le> 90 \<and> (of_char b :: nat) = of_char a + 32)
      \<or> (65 \<le> (of_char b :: nat) \<and> (of_char b :: nat) \<le> 90 \<and> (of_char a :: nat) = of_char b + 32))"

definition equal_ignoring_case :: "string \<Rightarrow> string \<Rightarrow> bool" where
  "equal_ignoring_case s t = list_all2 same_ignoring_case s t"

text \<open>
  A well-formed decimal integer in the specification's words: an optional sign and then one
  or more of the digits \<open>0\<close> to \<open>9\<close>; its value is read in positional notation.
\<close>

definition decimal_digit :: "char \<Rightarrow> bool" where
  "decimal_digit c = (c \<in> set ''0123456789'')"

definition digit_value :: "char \<Rightarrow> int" where
  "digit_value c = int (length (takeWhile (\<lambda>d. d \<noteq> c) ''0123456789''))"

fun digits_value_rev :: "string \<Rightarrow> int" where
  "digits_value_rev [] = 0"
| "digits_value_rev (d # ds) = digit_value d + 10 * digits_value_rev ds"

definition digits_value :: "string \<Rightarrow> int" where
  "digits_value ds = digits_value_rev (rev ds)"

definition decimal_literal :: "string \<Rightarrow> bool" where
  "decimal_literal s =
     (case s of
        [] \<Rightarrow> False
      | c # cs \<Rightarrow>
          if c = CHR ''-'' \<or> c = CHR ''+'' then cs \<noteq> [] \<and> list_all decimal_digit cs
          else list_all decimal_digit s)"

definition decimal_value :: "string \<Rightarrow> int" where
  "decimal_value s =
     (case s of
        [] \<Rightarrow> 0
      | c # cs \<Rightarrow>
          if c = CHR ''-'' then - digits_value cs
          else if c = CHR ''+'' then digits_value cs
          else digits_value s)"

text \<open>
  The white space that may stand before a number: space, tab, newline, vertical tab,
  form feed and carriage return.
\<close>

definition white_space :: "char \<Rightarrow> bool" where
  "white_space c = (c \<in> set [CHR '' '', CHR 0x09, CHR 0x0A, CHR 0x0B, CHR 0x0C, CHR 0x0D])"

text \<open>The value \<^verbatim>\<open>strtol\<close> gives for a number: the number, kept within \<^verbatim>\<open>long\<close>.\<close>

definition clamp_long :: "int \<Rightarrow> int" where
  "clamp_long v = (if v > LONG_MAX then LONG_MAX else if v < LONG_MIN then LONG_MIN else v)"

section \<open>The wire messages of the two mechanisms\<close>

text \<open>
  \<^verbatim>\<open>create_xoauth2_string\<close> and \<^verbatim>\<open>create_oauthbearer_string\<close> of
  \<^verbatim>\<open>tests/integration/test_utils.c\<close>: NULL for a NULL argument, else the buffer that
  \<^verbatim>\<open>snprintf\<close> fills. A hexadecimal escape of C takes every hexadecimal digit that
  follows it, so the literal \<^verbatim>\<open>"\x01auth=Bearer "\<close> is the one byte \<open>0x1A\<close> (the
  escape \<^verbatim>\<open>\x01a\<close>) followed by \<^verbatim>\<open>uth=Bearer \<close>, twelve bytes in all, and not the
  control byte \<open>^A\<close> followed by \<^verbatim>\<open>auth=Bearer \<close>. In \<^verbatim>\<open>"\x01\x01"\<close> each escape ends at
  the backslash: two bytes \<open>CHR 0x01\<close>, the control byte \<open>^A\<close>.
\<close>

definition create_xoauth2_string :: "string option \<Rightarrow> string option \<Rightarrow> string option" where
  "create_xoauth2_string username token =
     (case (username, token) of
        (Some u, Some t) \<Rightarrow>
          let len = length ''user='' + length u + length (CHR 0x1A # ''uth=Bearer '')
                    + length t + length [CHR 0x01, CHR 0x01] + 1
          in Some (snprintf len
                (''user='' @ u @ CHR 0x1A # ''uth=Bearer '' @ t @ [CHR 0x01, CHR 0x01]))
      | _ \<Rightarrow> None)"

definition create_oauthbearer_string :: "string option \<Rightarrow> string option \<Rightarrow> string option" where
  "create_oauthbearer_string username token =
     (case (username, token) of
        (Some u, Some t) \<Rightarrow>
          let len = length ''n,a='' + length u + length (CHR '','' # CHR 0x1A # ''uth=Bearer '')
                    + length t + length [CHR 0x01, CHR 0x01] + 1
          in Some (snprintf len
                (''n,a='' @ u @ CHR '','' # CHR 0x1A # ''uth=Bearer '' @ t
                   @ [CHR 0x01, CHR 0x01]))
      | _ \<Rightarrow> None)"

section \<open>The mechanisms and the validator, from the specification\<close>

text \<open>
  The server side of the plugin (the wire parsers, the mechanism steps and the token
  validation) is not among the sources; only tests that drive it through the SASL
  library are. What follows models it from sections 4.4, 4.5, 6 and 7 of the
  specification.
\<close>

text \<open>
  Modelled from the spec: the error taxonomy of section 7 for one authentication
  attempt; the plugin's own error codes are missing.
\<close>

datatype ValidationError =
    Expired | NotYetValid | IssuerMismatch | AudienceMismatch | SignatureInvalid
  | MissingUsernameClaim

datatype attempt_error =
    FormatError | NetworkError | Validation ValidationError | InternalError

text \<open>
  Modelled from the spec: a fixed prefix of a wire message, the missing parsers' basic
  step. None when the text does not start with the prefix, else the text after it.
\<close>

definition strip_prefix :: "string \<Rightarrow> string \<Rightarrow> string option" where
  "strip_prefix p s = (if take (length p) s = p then Some (drop (length p) s) else None)"

text \<open>
  Modelled from the spec: the missing wire parser of the single-step mechanism, for
  \<^verbatim>\<open>user=<name>^Aauth=Bearer <token>^A^A\<close>. Each field runs to the next \<open>^A\<close>; a
  missing delimiter or bearer prefix is a \<open>FormatError\<close>.
\<close>

definition parse_xoauth2 :: "string \<Rightarrow> attempt_error + string \<times> string" where
  "parse_xoauth2 msg =
     (case strip_prefix ''user='' msg of
        None \<Rightarrow> Inl FormatError
      | Some r1 \<Rightarrow>
          (case strip_prefix (CHR 0x01 # ''auth=Bearer '') (dropWhile (\<lambda>c. c \<noteq> CHR 0x01) r1) of
             None \<Rightarrow> Inl FormatError
           | Some r2 \<Rightarrow>
               if dropWhile (\<lambda>c. c \<noteq> CHR 0x01) r2 = [CHR 0x01, CHR 0x01]
               then Inr (takeWhile (\<lambda>c. c \<noteq> CHR 0x01) r1, takeWhile (\<lambda>c. c \<noteq> CHR 0x01) r2)
               else Inl FormatError))"

text \<open>
  Modelled from the spec: the missing wire parser of the two-step mechanism, for the
  initial client message \<^verbatim>\<open>n,a=<name>,^Aauth=Bearer <token>^A^A\<close>: the identity header
  runs to the first \<open>^A\<close> and ends with a comma, the token field is as in the
  single-step message.
\<close>

definition parse_oauthbearer :: "string \<Rightarrow> attempt_error + string \<times> string" where
  "parse_oauthbearer msg =
     (case strip_prefix ''n,a='' msg of
        None \<Rightarrow> Inl FormatError
      | Some r1 \<Rightarrow>
          let header = takeWhile (\<lambda>c. c \<noteq> CHR 0x01) r1 in
          if header = [] \<or> last header \<noteq> CHR '','' then Inl FormatError
          else
            (case strip_prefix (CHR 0x01 # ''auth=Bearer '')
                    (dropWhile (\<lambda>c. c \<noteq> CHR 0x01) r1) of
               None \<Rightarrow> Inl FormatError
             | Some r2 \<Rightarrow>
                 if dropWhile (\<lambda>c. c \<noteq> CHR 0x01) r2 = [CHR 0x01, CHR 0x01]
                 then Inr (butlast header, takeWhile (\<lambda>c. c \<noteq> CHR 0x01) r2)
                 else Inl FormatError))"

text \<open>
  Modelled from the spec: the claims of a decoded token that the missing validator
  reads (section 3): a scalar audience is a one-element list, an absent one the empty
  list; \<open>username_value\<close> is the value of the configured username claim when it is
  there and a string.
\<close>

record token_claims =
  iss :: "string option"
  aud :: "string list"
  exp :: "int option"
  nbf :: "int option"
  username_value :: "string option"

text \<open>
  Modelled from the spec: the part of the configuration the missing validator reads.
  The issuer list is empty when the deployment was configured by discovery endpoints
  only.
\<close>

record validator_config =
  accepted_issuers :: "string list"
  accepted_audiences :: "string list"
  signature_verification :: bool

text \<open>
  Modelled from the spec: step 2 of section 4.4, missing from the sources. Expired
  when the expiry claim is at or before the current time, not yet valid when the
  not-before claim is after it; an absent claim is skipped.
\<close>

definition check_temporal :: "int \<Rightarrow> token_claims \<Rightarrow> ValidationError option" where
  "check_temporal now c =
     (if (case exp c of Some e \<Rightarrow> e \<le> now | None \<Rightarrow> False) then Some Expired
      else if (case nbf c of Some n \<Rightarrow> now < n | None \<Rightarrow> False) then Some NotYetValid
      else None)"

text \<open>Modelled from the spec: step 3 of section 4.4, missing from the sources.\<close>

definition check_issuer :: "validator_config \<Rightarrow> token_claims \<Rightarrow> ValidationError option" where
  "check_issuer cfg c =
     (if accepted_issuers cfg = [] then None
      else (case iss c of
              None \<Rightarrow> Some IssuerMismatch
            | Some i \<Rightarrow> if i \<in> set (accepted_issuers cfg) then None else Some IssuerMismatch))"

text \<open>Modelled from the spec: step 4 of section 4.4, missing from the sources.\<close>

definition check_audience :: "validator_config \<Rightarrow> token_claims \<Rightarrow> ValidationError option" where
  "check_audience cfg c =
     (if accepted_audiences cfg \<noteq> [] \<and> \<not> list_ex (\<lambda>a. a \<in> set (aud c)) (accepted_audiences cfg)
      then Some AudienceMismatch else None)"

text \<open>
  Modelled from the spec: step 5 of section 4.4, missing from the sources. Whether
  the signature verifies against the resolved key set is the argument
  \<open>signature_ok\<close>; it is looked at only when verification is enabled.
\<close>

definition check_signature :: "validator_config \<Rightarrow> bool \<Rightarrow> ValidationError option" where
  "check_signature cfg signature_ok =
     (if signature_verification cfg \<and> \<not> signature_ok then Some SignatureInvalid else None)"

text \<open>Modelled from the spec: step 6 of section 4.4, missing from the sources.\<close>

definition extract_username :: "token_claims \<Rightarrow> ValidationError + string" where
  "extract_username c =
     (case username_value c of None \<Rightarrow> Inl MissingUsernameClaim | Some u \<Rightarrow> Inr u)"

text \<open>
  Modelled from the spec: the missing Claims Validator on a well-formed token, steps 2
  to 6 of section 4.4, each run only when the ones before it passed.
\<close>

definition validate ::
  "int \<Rightarrow> validator_config \<Rightarrow> bool \<Rightarrow> token_claims \<Rightarrow> ValidationError + string" where
  "validate now cfg signature_ok c =
     (case check_temporal now c of
        Some e \<Rightarrow> Inl e
      | None \<Rightarrow>
     (case check_issuer cfg c of
        Some e \<Rightarrow> Inl e
      | None \<Rightarrow>
     (case check_audience cfg c of
        Some e \<Rightarrow> Inl e
      | None \<Rightarrow>
     (case check_signature cfg signature_ok of
        Some e \<Rightarrow> Inl e
      | None \<Rightarrow> extract_username c))))"

text \<open>
  Modelled from the spec: the words of section 5 on the order, to compare the validator
  with. Of the checks in the order temporal, issuer, audience, signature, the first that
  fails gives the error.
\<close>

definition first_failure :: "ValidationError option list \<Rightarrow> ValidationError option" where
  "first_failure checks = (case filter (\<lambda>r. r \<noteq> None) checks of [] \<Rightarrow> None | r # rs \<Rightarrow> r)"

text \<open>
  Modelled from the spec: the missing session context and two-step mechanism of
  section 4.5. A step takes the client's message and gives the result for the host
  framework: success with the username, a continuation with the server's JSON error
  document, or failure.
\<close>

datatype mech_state = Start | AwaitingContinuation | Done

datatype json = JString string | JObject "(string \<times> json) list"

datatype step_result = Success string | Continue json | Failure attempt_error

record session_context =
  state :: mech_state
  username :: "string option"
  last_error :: "attempt_error option"

definition new_session :: session_context where
  "new_session = \<lparr>state = Start, username = None, last_error = None\<rparr>"

text \<open>
  Modelled from the spec: the error continuation of section 6, a JSON object with a
  \<open>status\<close> field for the failure category and a readable message. The specification
  leaves the two texts open, so \<open>describe\<close> gives them.
\<close>

definition error_continuation :: "(attempt_error \<Rightarrow> string \<times> string) \<Rightarrow> attempt_error \<Rightarrow> json" where
  "error_continuation describe e =
     JObject [(''status'', JString (fst (describe e))), (''message'', JString (snd (describe e)))]"

text \<open>Modelled from the spec: reading a field of the error document, for section 6.\<close>

fun json_field :: "string \<Rightarrow> json \<Rightarrow> json option" where
  "json_field name (JObject members) = map_of members name"
| "json_field name (JString s) = None"

text \<open>
  Modelled from the spec: one step of the missing two-step mechanism. \<open>validator\<close>
  stands for parsing and validating the token (sections 4.3 and 4.4). In \<open>Start\<close> a
  token that validates ends the exchange with success; any error of the attempt is
  answered by the error continuation, and the next client message ends the exchange in
  failure.
\<close>

definition oauthbearer_step ::
  "(string \<Rightarrow> attempt_error + string) \<Rightarrow> (attempt_error \<Rightarrow> string \<times> string) \<Rightarrow>
   session_context \<Rightarrow> string \<Rightarrow> step_result \<times> session_context" where
  "oauthbearer_step validator describe ctx clientin =
     (case state ctx of
        Start \<Rightarrow>
          (case (case parse_oauthbearer clientin of
                   Inl e \<Rightarrow> Inl e
                 | Inr (name, token) \<Rightarrow> validator token) of
             Inr user \<Rightarrow> (Success user, ctx\<lparr>state := Done, username := Some user\<rparr>)
           | Inl e \<Rightarrow>
               (Continue (error_continuation describe e),
                ctx\<lparr>state := AwaitingContinuation, last_error := Some e\<rparr>))
      | AwaitingContinuation \<Rightarrow>
          (Failure (case last_error ctx of Some e \<Rightarrow> e | None \<Rightarrow> InternalError),
           ctx\<lparr>state := Done\<rparr>)
      | Done \<Rightarrow> (Failure InternalError, ctx))"

text \<open>
  Modelled from the spec: an exchange, round by round. The host framework calls the
  step once per client message and stops at the first result that is not a
  continuation.
\<close>

fun run_exchange ::
  "(string \<Rightarrow> attempt_error + string) \<Rightarrow> (attempt_error \<Rightarrow> string \<times> string) \<Rightarrow>
   session_context \<Rightarrow> string list \<Rightarrow> step_result list" where
  "run_exchange validator describe ctx [] = []"
| "run_exchange validator describe ctx (m # ms) =
     (case oauthbearer_step validator describe ctx m of
        (Continue j, ctx') \<Rightarrow> Continue j # run_exchange validator describe ctx' ms
      | (r, ctx') \<Rightarrow> [r])"

section \<open>Settings stores of the tests\<close>

text \<open>
  A settings store that holds the listed settings, built as \<^verbatim>\<open>server_getopt\<close> of
  \<^verbatim>\<open>tests/integration/mini_server.c\<close> is: \<^verbatim>\<open>SASL_OK\<close> and the value for a key it
  holds, \<^verbatim>\<open>SASL_FAIL\<close> and NULL for any other.
\<close>

definition settings_store :: "(conf_key \<times> string) list \<Rightarrow> sasl_utils" where
  "settings_store kvs =
     \<lparr>getopt = (\<lambda>key. case map_of kvs key of
                          Some v \<Rightarrow> (SASL_OK, Some v)
                        | None \<Rightarrow> (SASL_FAIL, None))\<rparr>"

text \<open>
  The settings of \<^verbatim>\<open>server_getopt\<close> itself; the tests name the keys
  \<^verbatim>\<open>oauth2_issuers\<close>, \<^verbatim>\<open>oauth2_audiences\<close>, \<^verbatim>\<open>oauth2_client_id\<close>,
  \<^verbatim>\<open>oauth2_user_claim\<close> and \<^verbatim>\<open>oauth2_verify_signature\<close>.
\<close>

definition server_getopt :: sasl_utils where
  "server_getopt = settings_store
     [(OAUTH2_CONF_ISSUERS, ''https://test.issuer.com''),
      (OAUTH2_CONF_AUDIENCES, ''test_audience''),
      (OAUTH2_CONF_CLIENT_ID, ''test_client''),
      (OAUTH2_CONF_USER_CLAIM, ''email''),
      (OAUTH2_CONF_VERIFY_SIGNATURE, ''no'')]"

text \<open>
  Values for the \<^verbatim>\<open>OAUTH2_DEFAULT_*\<close> macros in the examples below. The default
  username claim is the specification's \<open>email\<close>; the other values are picked for the
  examples only, and no theorem depends on them.
\<close>

definition example_defaults :: oauth2_defaults where
  "example_defaults =
     \<lparr>OAUTH2_DEFAULT_SCOPE = ''openid'', OAUTH2_DEFAULT_USER_CLAIM = ''email'',
      OAUTH2_DEFAULT_VERIFY_SIGNATURE = 1, OAUTH2_DEFAULT_SSL_VERIFY = 1,
      OAUTH2_DEFAULT_TIMEOUT = 10, OAUTH2_DEFAULT_DEBUG = 0\<rparr>"

section \<open>Properties of the configuration code\<close>

subsection \<open>Auxiliary facts\<close>

lemma split_ws_Cons:
  "split_ws cur (c # cs) =
     (if c \<in> set delims then (if cur = [] then [] else [cur]) @ split_ws [] cs
      else split_ws (cur @ [c]) cs)"
  by (simp add: delims_def)

lemma split_ws_run:
  "split_ws cur s =
     (if cur @ takeWhile (\<lambda>c. c \<notin> set delims) s = [] then []
      else [cur @ takeWhile (\<lambda>c. c \<notin> set delims) s])
     @ split_ws [] (drop 1 (dropWhile (\<lambda>c. c \<notin> set delims) s))"
proof (induction s arbitrary: cur)
  case Nil
  then show ?case by simp
next
  case (Cons c cs)
  show ?case
  proof (cases "c \<in> set delims")
    case True
    then show ?thesis by (simp add: split_ws_Cons del: split_ws.simps(2))
  next
    case False
    then show ?thesis
      using Cons.IH [of "cur @ [c]"] by (simp add: split_ws_Cons del: split_ws.simps(2))
  qed
qed

lemma split_ws_skip: "split_ws [] s = split_ws [] (dropWhile (\<lambda>c. c \<in> set delims) s)"
  by (induction s) (simp_all add: split_ws_Cons del: split_ws.simps(2))

lemma strtok_tokens:
  "ws_tokens s = (case strtok delims s of (None, r) \<Rightarrow> [] | (Some t, r) \<Rightarrow> t # ws_tokens r)"
proof -
  let ?s1 = "dropWhile (\<lambda>c. c \<in> set delims) s"
  show ?thesis
  proof (cases "?s1 = []")
    case True
    then have "split_ws [] s = []"
      by (subst split_ws_skip) (simp del: dropWhile_eq_Nil_conv)
    with True show ?thesis by (simp add: strtok_def ws_tokens_def)
  next
    case False
    then have "hd ?s1 \<notin> set delims"
      using hd_dropWhile [of "\<lambda>c. c \<in> set delims" s] by simp
    with False have ne: "takeWhile (\<lambda>c. c \<notin> set delims) ?s1 \<noteq> []"
      by (cases ?s1) auto
    have "split_ws [] s = split_ws [] ?s1"
      by (rule split_ws_skip)
    also have "\<dots> = takeWhile (\<lambda>c. c \<notin> set delims) ?s1
        # split_ws [] (drop 1 (dropWhile (\<lambda>c. c \<notin> set delims) ?s1))"
      using ne by (subst split_ws_run) simp
    finally show ?thesis
      using False by (simp add: strtok_def ws_tokens_def Let_def del: dropWhile_eq_Nil_conv)
  qed
qed

lemma strtok_rest_shorter: "strtok delims s = (Some t, r) \<Longrightarrow> length r < length s"
  using strtok_shorter [of delims s] by simp

lemma count_loop_tokens: "count_loop (strtok delims s) n = n + length (ws_tokens s)"
proof (induction s arbitrary: n rule: length_induct)
  case (1 s)
  obtain tok r where st: "strtok delims s = (tok, r)"
    by (cases "strtok delims s")
  show ?case
  proof (cases tok)
    case None
    with st show ?thesis using strtok_tokens [of s] by simp
  next
    case (Some t)
    with st have "length r < length s" by (simp add: strtok_rest_shorter)
    with 1 have "count_loop (strtok delims r) (Suc n) = Suc n + length (ws_tokens r)"
      by blast
    with st Some show ?thesis using strtok_tokens [of s] by simp
  qed
qed

lemma fill_loop_tokens:
  "i + length (ws_tokens s) \<le> item_count \<Longrightarrow> item_count < length list \<Longrightarrow>
   fill_loop (strtok delims s) i item_count list =
     (i + length (ws_tokens s),
      take i list @ map Ptr (ws_tokens s) @ drop (i + length (ws_tokens s)) list)"
proof (induction s arbitrary: i list rule: length_induct)
  case (1 s)
  obtain tok r where st: "strtok delims s = (tok, r)"
    by (cases "strtok delims s")
  show ?case
  proof (cases tok)
    case None
    with st show ?thesis using strtok_tokens [of s] by simp
  next
    case (Some t)
    with st have ws: "ws_tokens s = t # ws_tokens r"
      using strtok_tokens [of s] by simp
    from st Some have len: "length r < length s" by (simp add: strtok_rest_shorter)
    from ws "1.prems" have b: "Suc i + length (ws_tokens r) \<le> item_count" "i < item_count"
      by simp_all
    have l: "item_count < length (list[i := Ptr t])"
      using "1.prems" by simp
    have ih: "fill_loop (strtok delims r) (Suc i) item_count (list[i := Ptr t]) =
      (Suc i + length (ws_tokens r),
       take (Suc i) (list[i := Ptr t]) @ map Ptr (ws_tokens r)
         @ drop (Suc i + length (ws_tokens r)) (list[i := Ptr t]))"
      using 1 len b(1) l by blast
    have il: "i < length list" using b(2) "1.prems"(2) by simp
    have t1: "take (Suc i) (list[i := Ptr t]) = take i list @ [Ptr t]"
      using il by (simp add: take_Suc_conv_app_nth)
    have t2: "drop (Suc i + length (ws_tokens r)) (list[i := Ptr t])
        = drop (Suc i + length (ws_tokens r)) list"
      by simp
    show ?thesis
      using st Some ws b(2) ih t1 t2 by simp
  qed
qed

lemma parse_string_list_tokens:
  "oauth2_parse_string_list input =
     (case input of
        None \<Rightarrow> (None, 0)
      | Some s \<Rightarrow>
          if ws_tokens s = [] then (None, 0)
          else (Some (map Ptr (ws_tokens s) @ [NULL]), length (ws_tokens s)))"
proof (cases input)
  case None
  then show ?thesis by (simp add: oauth2_parse_string_list_def)
next
  case (Some s)
  let ?n = "length (ws_tokens s)"
  have cnt: "count_loop (strtok delims s) 0 = ?n"
    by (simp add: count_loop_tokens)
  have fill: "fill_loop (strtok delims s) 0 ?n (replicate (?n + 1) Uninit) =
     (?n, map Ptr (ws_tokens s) @ [Uninit])"
  proof -
    have "replicate (?n + 1) Uninit = replicate ?n Uninit @ [Uninit]"
      by (simp add: replicate_append_same)
    then have "drop ?n (replicate (?n + 1) Uninit) = [Uninit]"
      by (simp del: replicate_Suc)
    then show ?thesis
      by (subst fill_loop_tokens) (simp_all del: replicate_Suc)
  qed
  have upd: "(map Ptr (ws_tokens s) @ [Uninit])[?n := NULL] = map Ptr (ws_tokens s) @ [NULL]"
    by (simp add: list_update_append)
  have empty: "s = [] \<Longrightarrow> ws_tokens s = []"
    by (simp add: ws_tokens_def)
  show ?thesis
    using Some cnt fill upd empty
    by (auto simp: oauth2_parse_string_list_def Let_def)
qed


lemma parse_present:
  "oauth2_parse_string_list (Some v) = (string_array (ws_tokens v), length (ws_tokens v))"
  by (simp add: parse_string_list_tokens string_array_def)

lemma entries_plural:
  "oauth2_config_get_string u plural None = Some v \<Longrightarrow> entries u plural singular = ws_tokens v"
  by (simp add: entries_def)

lemma entries_singular:
  "oauth2_config_get_string u plural None = None \<Longrightarrow>
   oauth2_config_get_string u singular None = Some v \<Longrightarrow> entries u plural singular = ws_tokens v"
  by (simp add: entries_def)

lemma entries_neither:
  "oauth2_config_get_string u plural None = None \<Longrightarrow>
   oauth2_config_get_string u singular None = None \<Longrightarrow> entries u plural singular = []"
  by (simp add: entries_def)

lemma load_discovery_urls_eq:
  assumes "discovery_urls c = None" and "discovery_urls_count c = 0"
  shows "load_discovery_urls u c =
     (if both_forms u OAUTH2_CONF_DISCOVERY_URLS OAUTH2_CONF_DISCOVERY_URL
      then Inl (Returns SASL_FAIL
             (Some (Cannot_configure_both OAUTH2_CONF_DISCOVERY_URLS OAUTH2_CONF_DISCOVERY_URL))
             (Some c))
      else Inr (c\<lparr>discovery_urls :=
                    string_array (entries u OAUTH2_CONF_DISCOVERY_URLS OAUTH2_CONF_DISCOVERY_URL),
                  discovery_urls_count :=
                    length (entries u OAUTH2_CONF_DISCOVERY_URLS OAUTH2_CONF_DISCOVERY_URL)\<rparr>))"
proof -
  have keep: "c\<lparr>discovery_urls := None, discovery_urls_count := 0\<rparr> = c"
    using assms by simp
  show ?thesis
  proof (cases "oauth2_config_get_string u OAUTH2_CONF_DISCOVERY_URLS None")
    case None
    note pl = this
    show ?thesis
    proof (cases "oauth2_config_get_string u OAUTH2_CONF_DISCOVERY_URL None")
      case None
      with pl show ?thesis
        by (simp add: load_discovery_urls_def both_forms_def present_def entries_neither
            string_array_def keep)
    next
      case (Some v)
      with pl show ?thesis
        by (simp add: load_discovery_urls_def both_forms_def present_def entries_singular
            parse_present)
    qed
  next
    case (Some v)
    then show ?thesis
      by (simp add: load_discovery_urls_def both_forms_def present_def entries_plural
          parse_present)
  qed
qed

lemma load_issuers_eq:
  assumes "issuers c = None" and "issuers_count c = 0"
  shows "load_issuers u c =
     (if both_forms u OAUTH2_CONF_ISSUERS OAUTH2_CONF_ISSUER
      then Inl (Returns SASL_FAIL
             (Some (Cannot_configure_both OAUTH2_CONF_ISSUERS OAUTH2_CONF_ISSUER)) (Some c))
      else if discovery_urls c = None \<and> entries u OAUTH2_CONF_ISSUERS OAUTH2_CONF_ISSUER = []
      then Inl (Returns SASL_FAIL
             (Some (Either_must_be_configured
                OAUTH2_CONF_DISCOVERY_URLS OAUTH2_CONF_DISCOVERY_URL
                OAUTH2_CONF_ISSUERS OAUTH2_CONF_ISSUER))
             (Some (c\<lparr>issuers := None, issuers_count := 0\<rparr>)))
      else Inr (c\<lparr>issuers := string_array (entries u OAUTH2_CONF_ISSUERS OAUTH2_CONF_ISSUER),
                  issuers_count := length (entries u OAUTH2_CONF_ISSUERS OAUTH2_CONF_ISSUER)\<rparr>))"
proof -
  have keep: "c\<lparr>issuers := None, issuers_count := 0\<rparr> = c"
    using assms by simp
  show ?thesis
  proof (cases "oauth2_config_get_string u OAUTH2_CONF_ISSUERS None")
    case None
    note pl = this
    show ?thesis
    proof (cases "oauth2_config_get_string u OAUTH2_CONF_ISSUER None")
      case None
      with pl show ?thesis
        using assms
        by (auto simp: load_issuers_def both_forms_def present_def entries_neither
            string_array_def keep Let_def)
    next
      case (Some v)
      with pl show ?thesis
        by (auto simp: load_issuers_def both_forms_def present_def entries_singular
            parse_present string_array_def Let_def)
    qed
  next
    case (Some v)
    then show ?thesis
      by (auto simp: load_issuers_def both_forms_def present_def entries_plural
          parse_present string_array_def Let_def)
  qed
qed

lemma load_audiences_eq:
  assumes "audiences c = None" and "audiences_count c = 0"
  shows "load_audiences u c =
     (if both_forms u OAUTH2_CONF_AUDIENCES OAUTH2_CONF_AUDIENCE
      then Inl (Returns SASL_FAIL
             (Some (Cannot_configure_both OAUTH2_CONF_AUDIENCES OAUTH2_CONF_AUDIENCE)) (Some c))
      else Inr (c\<lparr>audiences := string_array (entries u OAUTH2_CONF_AUDIENCES OAUTH2_CONF_AUDIENCE),
                  audiences_count := length (entries u OAUTH2_CONF_AUDIENCES OAUTH2_CONF_AUDIENCE)\<rparr>))"
proof -
  have keep: "c\<lparr>audiences := None, audiences_count := 0\<rparr> = c"
    using assms by simp
  show ?thesis
  proof (cases "oauth2_config_get_string u OAUTH2_CONF_AUDIENCES None")
    case None
    note pl = this
    show ?thesis
    proof (cases "oauth2_config_get_string u OAUTH2_CONF_AUDIENCE None")
      case None
      with pl show ?thesis
        by (simp add: load_audiences_def both_forms_def present_def entries_neither
            string_array_def keep)
    next
      case (Some v)
      with pl show ?thesis
        by (simp add: load_audiences_def both_forms_def present_def entries_singular
            parse_present)
    qed
  next
    case (Some v)
    then show ?thesis
      by (simp add: load_audiences_def both_forms_def present_def entries_plural
          parse_present)
  qed
qed

lemma issuer_discovery_url_derived: "issuer_discovery_url issuer = derived_endpoint issuer"
proof (cases "issuer = []")
  case True
  then show ?thesis
    by (simp add: issuer_discovery_url_def derived_endpoint_def snprintf_def well_known_def)
next
  case False
  then have "issuer ! (length issuer - 1) = last issuer"
    by (simp add: last_conv_nth)
  moreover have "take (length issuer - 1) issuer = butlast issuer"
    by (simp add: butlast_conv_take)
  ultimately show ?thesis
    using False
    by (simp add: issuer_discovery_url_def derived_endpoint_def snprintf_def well_known_def
        Let_def)
qed

lemma discovery_loop_tokens:
  "i \<le> length toks \<Longrightarrow> length urls = length toks \<Longrightarrow>
   discovery_loop i (length toks) (map Ptr toks @ rest) urls =
     Some (take i urls @ map (\<lambda>s. Ptr (issuer_discovery_url s)) (drop i toks))"
proof (induction "length toks - i" arbitrary: i urls)
  case 0
  then show ?case by simp
next
  case (Suc k)
  then have lt: "i < length toks" by simp
  then have rd: "(map Ptr toks @ rest) ! i = Ptr (toks ! i)"
    by (simp add: nth_append)
  have ih: "discovery_loop (Suc i) (length toks) (map Ptr toks @ rest)
        (urls[i := Ptr (issuer_discovery_url (toks ! i))]) =
      Some (take (Suc i) (urls[i := Ptr (issuer_discovery_url (toks ! i))])
        @ map (\<lambda>s. Ptr (issuer_discovery_url s)) (drop (Suc i) toks))"
    using Suc lt by (intro Suc.hyps(1)) simp_all
  have tk: "take (Suc i) (urls[i := Ptr (issuer_discovery_url (toks ! i))])
      = take i urls @ [Ptr (issuer_discovery_url (toks ! i))]"
    using lt Suc.prems by (simp add: take_Suc_conv_app_nth)
  have dr: "drop i toks = toks ! i # drop (Suc i) toks"
    using lt by (simp add: Cons_nth_drop_Suc)
  show ?case
    using lt rd ih tk dr by (subst discovery_loop.simps) simp
qed

lemma construct_discovery_urls_eq:
  assumes "issuers c = string_array toks" and "issuers_count c = length toks"
  shows "construct_discovery_urls c =
     Inr (if discovery_urls c = None \<and> toks \<noteq> []
          then c\<lparr>discovery_urls := Some (map (\<lambda>s. Ptr (issuer_discovery_url s)) toks),
                 discovery_urls_count := length toks\<rparr>
          else c)"
proof (cases "discovery_urls c = None \<and> toks \<noteq> []")
  case True
  have "discovery_loop 0 (length toks) (map Ptr toks @ [NULL]) (replicate (length toks) Uninit)
      = Some (map (\<lambda>s. Ptr (issuer_discovery_url s)) toks)"
    by (subst discovery_loop_tokens) simp_all
  with True assms show ?thesis
    by (simp add: construct_discovery_urls_def string_array_def)
next
  case False
  with assms show ?thesis
    by (auto simp: construct_discovery_urls_def string_array_def split: option.splits)
qed

lemma zeroed_fields:
  "discovery_urls zeroed_config = None" "discovery_urls_count zeroed_config = 0"
  "issuers zeroed_config = None" "issuers_count zeroed_config = 0"
  "audiences zeroed_config = None" "audiences_count zeroed_config = 0"
  by (simp_all add: zeroed_config_def)

lemma string_array_None: "string_array toks = None \<longleftrightarrow> toks = []"
  by (simp add: string_array_def)

lemma load_client_credentials_eq:
  "load_client_credentials u c =
     (if \<not> present u OAUTH2_CONF_CLIENT_ID
      then Inl (Returns SASL_FAIL (Some (Must_be_configured OAUTH2_CONF_CLIENT_ID))
             (Some (c\<lparr>client_id := oauth2_config_get_string u OAUTH2_CONF_CLIENT_ID None,
                       client_secret := oauth2_config_get_string u OAUTH2_CONF_CLIENT_SECRET None\<rparr>)))
      else Inr (c\<lparr>client_id := oauth2_config_get_string u OAUTH2_CONF_CLIENT_ID None,
                  client_secret := oauth2_config_get_string u OAUTH2_CONF_CLIENT_SECRET None\<rparr>))"
  by (simp add: load_client_credentials_def present_def Let_def)

lemma load_fresh:
  "oauth2_config_load d (oauth2_config_init True) (Some u) =
     (let c0 = zeroed_config\<lparr>oauth2_log := True\<rparr>;
          D = entries u OAUTH2_CONF_DISCOVERY_URLS OAUTH2_CONF_DISCOVERY_URL;
          I = entries u OAUTH2_CONF_ISSUERS OAUTH2_CONF_ISSUER;
          A = entries u OAUTH2_CONF_AUDIENCES OAUTH2_CONF_AUDIENCE;
          c1 = c0\<lparr>discovery_urls := string_array D, discovery_urls_count := length D\<rparr>;
          c2 = c1\<lparr>issuers := string_array I, issuers_count := length I\<rparr>;
          c3 = (if D = []
                then c2\<lparr>discovery_urls := Some (map (\<lambda>s. Ptr (issuer_discovery_url s)) I),
                        discovery_urls_count := length I\<rparr>
                else c2);
          c4 = c3\<lparr>client_id := oauth2_config_get_string u OAUTH2_CONF_CLIENT_ID None,
                  client_secret := oauth2_config_get_string u OAUTH2_CONF_CLIENT_SECRET None\<rparr>;
          c5 = c4\<lparr>audiences := string_array A, audiences_count := length A\<rparr>
      in if both_forms u OAUTH2_CONF_DISCOVERY_URLS OAUTH2_CONF_DISCOVERY_URL
         then Returns SASL_FAIL
                (Some (Cannot_configure_both OAUTH2_CONF_DISCOVERY_URLS OAUTH2_CONF_DISCOVERY_URL))
                (Some c0)
         else if both_forms u OAUTH2_CONF_ISSUERS OAUTH2_CONF_ISSUER
         then Returns SASL_FAIL
                (Some (Cannot_configure_both OAUTH2_CONF_ISSUERS OAUTH2_CONF_ISSUER))
                (Some c1)
         else if D = [] \<and> I = []
         then Returns SASL_FAIL
                (Some (Either_must_be_configured
                   OAUTH2_CONF_DISCOVERY_URLS OAUTH2_CONF_DISCOVERY_URL
                   OAUTH2_CONF_ISSUERS OAUTH2_CONF_ISSUER))
                (Some c2)
         else if \<not> present u OAUTH2_CONF_CLIENT_ID
         then Returns SASL_FAIL (Some (Must_be_configured OAUTH2_CONF_CLIENT_ID)) (Some c4)
         else if both_forms u OAUTH2_CONF_AUDIENCES OAUTH2_CONF_AUDIENCE
         then Returns SASL_FAIL
                (Some (Cannot_configure_both OAUTH2_CONF_AUDIENCES OAUTH2_CONF_AUDIENCE))
                (Some c4)
         else Returns SASL_OK None (Some (load_scalars d u c5)))"
proof -
  let ?c0 = "zeroed_config\<lparr>oauth2_log := True\<rparr>"
  let ?D = "entries u OAUTH2_CONF_DISCOVERY_URLS OAUTH2_CONF_DISCOVERY_URL"
  let ?I = "entries u OAUTH2_CONF_ISSUERS OAUTH2_CONF_ISSUER"
  let ?c1 = "?c0\<lparr>discovery_urls := string_array ?D, discovery_urls_count := length ?D\<rparr>"
  let ?c2 = "?c1\<lparr>issuers := string_array ?I, issuers_count := length ?I\<rparr>"
  have s1: "load_discovery_urls u ?c0 =
     (if both_forms u OAUTH2_CONF_DISCOVERY_URLS OAUTH2_CONF_DISCOVERY_URL
      then Inl (Returns SASL_FAIL
             (Some (Cannot_configure_both OAUTH2_CONF_DISCOVERY_URLS OAUTH2_CONF_DISCOVERY_URL))
             (Some ?c0))
      else Inr ?c1)"
    by (rule load_discovery_urls_eq) (simp_all add: zeroed_fields)
  have s2: "load_issuers u ?c1 =
     (if both_forms u OAUTH2_CONF_ISSUERS OAUTH2_CONF_ISSUER
      then Inl (Returns SASL_FAIL
             (Some (Cannot_configure_both OAUTH2_CONF_ISSUERS OAUTH2_CONF_ISSUER)) (Some ?c1))
      else if ?D = [] \<and> ?I = []
      then Inl (Returns SASL_FAIL
             (Some (Either_must_be_configured
                OAUTH2_CONF_DISCOVERY_URLS OAUTH2_CONF_DISCOVERY_URL
                OAUTH2_CONF_ISSUERS OAUTH2_CONF_ISSUER))
             (Some ?c2))
      else Inr ?c2)"
    by (subst load_issuers_eq) (auto simp: zeroed_fields string_array_None string_array_def)
  have s3: "construct_discovery_urls ?c2 =
     Inr (if ?D = [] \<and> ?I \<noteq> []
          then ?c2\<lparr>discovery_urls := Some (map (\<lambda>s. Ptr (issuer_discovery_url s)) ?I),
                   discovery_urls_count := length ?I\<rparr>
          else ?c2)"
    by (subst construct_discovery_urls_eq [where toks = ?I]) (simp_all add: string_array_None)
  show ?thesis
    unfolding oauth2_config_load_def oauth2_config_init_def
    by (simp add: s1 s2 s3 load_client_credentials_eq load_audiences_eq zeroed_fields Let_def)
qed

lemma of_char_tolower:
  "(of_char (tolower c) :: nat) =
     (if 65 \<le> (of_char c :: nat) \<and> (of_char c :: nat) \<le> 90 then of_char c + 32 else of_char c)"
  by (simp add: tolower_def)

lemma char_eq_code: "a = b \<longleftrightarrow> (of_char a :: nat) = of_char b"
  by simp

lemma tolower_eq_iff: "tolower x = tolower y \<longleftrightarrow> same_ignoring_case x y"
  unfolding same_ignoring_case_def char_eq_code [of "tolower x"] char_eq_code [of x y] of_char_tolower
  by auto

lemma tolower_code_zero: "(of_char (tolower y) :: nat) = 0 \<longleftrightarrow> y = CHR 0x00"
proof -
  have "y = CHR 0x00 \<longleftrightarrow> (of_char y :: nat) = 0"
    by (subst char_eq_code) simp
  then show ?thesis by (simp add: of_char_tolower)
qed

lemma strcasecmp_zero:
  "c_string a \<Longrightarrow> c_string b \<Longrightarrow> strcasecmp a b = 0 \<longleftrightarrow> equal_ignoring_case a b"
proof (induction a b rule: strcasecmp.induct)
  case 1
  then show ?case by (simp add: equal_ignoring_case_def)
next
  case (2 y ys)
  then have "y \<noteq> CHR 0x00" by (auto simp: c_string_def)
  then show ?case
    using tolower_code_zero [of y] by (simp add: equal_ignoring_case_def)
next
  case (3 x xs)
  then have "x \<noteq> CHR 0x00" by (auto simp: c_string_def)
  then show ?case
    using tolower_code_zero [of x] by (simp add: equal_ignoring_case_def)
next
  case (4 x xs y ys)
  then have cs: "c_string xs" "c_string ys" by (auto simp: c_string_def)
  show ?case
  proof (cases "tolower x = tolower y")
    case True
    with 4 cs show ?thesis
      by (simp add: equal_ignoring_case_def tolower_eq_iff [symmetric])
  next
    case False
    then show ?thesis
      by (simp add: equal_ignoring_case_def tolower_eq_iff [symmetric])
  qed
qed

lemma get_bool_present:
  assumes "getopt u key = (SASL_OK, Some v)" and "c_string v"
  shows "oauth2_config_get_bool u key dv =
     (if equal_ignoring_case v ''yes'' \<or> equal_ignoring_case v ''true''
         \<or> equal_ignoring_case v ''1'' then 1 else 0)"
proof -
  have "c_string ''yes''" "c_string ''true''" "c_string ''1''"
    by (simp_all add: c_string_def)
  then show ?thesis
    using assms by (simp add: oauth2_config_get_bool_def strcasecmp_zero)
qed


lemma isdigit_chars: "isdigit c \<longleftrightarrow> c \<in> set ''0123456789''"
proof
  assume "isdigit c"
  then have "48 \<le> (of_char c :: nat)" "(of_char c :: nat) \<le> 57"
    by (simp_all add: isdigit_def)
  then have "(of_char c :: nat) = 48 \<or> (of_char c :: nat) = 49 \<or> (of_char c :: nat) = 50
      \<or> (of_char c :: nat) = 51 \<or> (of_char c :: nat) = 52 \<or> (of_char c :: nat) = 53
      \<or> (of_char c :: nat) = 54 \<or> (of_char c :: nat) = 55 \<or> (of_char c :: nat) = 56
      \<or> (of_char c :: nat) = 57"
    by arith
  then have "c = CHR ''0'' \<or> c = CHR ''1'' \<or> c = CHR ''2'' \<or> c = CHR ''3'' \<or> c = CHR ''4''
      \<or> c = CHR ''5'' \<or> c = CHR ''6'' \<or> c = CHR ''7'' \<or> c = CHR ''8'' \<or> c = CHR ''9''"
    by (simp add: char_eq_code [of c])
  then show "c \<in> set ''0123456789''"
    by auto
next
  assume "c \<in> set ''0123456789''"
  then show "isdigit c"
    by (auto simp: isdigit_def)
qed

lemma digit_value_code: "decimal_digit c \<Longrightarrow> digit_value c = int (of_char c) - 48"
proof -
  assume "decimal_digit c"
  then have "c = CHR ''0'' \<or> c = CHR ''1'' \<or> c = CHR ''2'' \<or> c = CHR ''3'' \<or> c = CHR ''4''
      \<or> c = CHR ''5'' \<or> c = CHR ''6'' \<or> c = CHR ''7'' \<or> c = CHR ''8'' \<or> c = CHR ''9''"
    by (simp add: decimal_digit_def)
  then show ?thesis
    by (elim disjE) (simp_all add: digit_value_def)
qed

lemma isdigit_decimal: "isdigit = decimal_digit"
  by (rule ext) (simp add: isdigit_chars decimal_digit_def)

lemma foldl_digits:
  "list_all decimal_digit ds \<Longrightarrow>
   foldl (\<lambda>a c. 10 * a + (int (of_char c) - 48)) a ds = a * 10 ^ length ds + digits_value ds"
proof (induction ds rule: rev_induct)
  case Nil
  then show ?case by (simp add: digits_value_def)
next
  case (snoc d ds)
  then have "decimal_digit d" "list_all decimal_digit ds" by simp_all
  with snoc.IH show ?case
    by (simp add: digits_value_def digit_value_code algebra_simps)
qed

lemma digit_not_space: "decimal_digit c \<Longrightarrow> \<not> isspace c"
  using isdigit_chars [of c] by (auto simp: decimal_digit_def isdigit_def isspace_def)

lemma digit_not_sign: "decimal_digit c \<Longrightarrow> c \<noteq> CHR ''-'' \<and> c \<noteq> CHR ''+''"
  by (auto simp: decimal_digit_def)

lemma takeWhile_all: "list_all P xs \<Longrightarrow> takeWhile P (xs @ ys) = xs @ takeWhile P ys"
  by (induction xs) simp_all

lemma dropWhile_all: "list_all P xs \<Longrightarrow> dropWhile P (xs @ ys) = dropWhile P ys"
  by (induction xs) simp_all

lemma strtol_digits:
  assumes "ds \<noteq> []" and "list_all decimal_digit ds" and "rest = [] \<or> \<not> decimal_digit (hd rest)"
  shows "strtol (ds @ rest) = (clamp_long (digits_value ds), length ds)"
proof -
  from assms obtain d ds' where ds: "ds = d # ds'" by (cases ds) auto
  with assms have d: "decimal_digit d" by simp
  have tw: "takeWhile decimal_digit (ds @ rest) = ds"
    using assms(2,3) by (cases rest) (simp_all add: takeWhile_all list_all_iff)
  have dw: "dropWhile decimal_digit (ds @ rest) = rest"
    using assms(2,3) by (cases rest) (simp_all add: dropWhile_all list_all_iff)
  have sp: "dropWhile isspace (ds @ rest) = ds @ rest"
    using d ds by (simp add: digit_not_space)
  have hd: "hd (ds @ rest) = d" using ds by simp
  show ?thesis
    unfolding strtol_def sp isdigit_decimal Let_def
    using assms(1) digit_not_sign [OF d] hd tw dw
    by (simp add: foldl_digits [OF assms(2)] clamp_long_def)
qed

lemma strtol_signed:
  assumes "c = CHR ''-'' \<or> c = CHR ''+''" and "ds \<noteq> []" and "list_all decimal_digit ds"
    and "rest = [] \<or> \<not> decimal_digit (hd rest)"
  shows "strtol (c # ds @ rest) =
     (clamp_long (if c = CHR ''-'' then - digits_value ds else digits_value ds), Suc (length ds))"
proof -
  have tw: "takeWhile decimal_digit (ds @ rest) = ds"
    using assms(3,4) by (cases rest) (simp_all add: takeWhile_all list_all_iff)
  have dw: "dropWhile decimal_digit (ds @ rest) = rest"
    using assms(3,4) by (cases rest) (simp_all add: dropWhile_all list_all_iff)
  have sp: "dropWhile isspace (c # ds @ rest) = c # ds @ rest"
    using assms(1) by (auto simp: isspace_def)
  show ?thesis
    unfolding strtol_def sp isdigit_decimal Let_def
    using assms(1,2) tw dw
    by (auto simp: foldl_digits [OF assms(3)] clamp_long_def)
qed

lemma strtol_literal:
  assumes "decimal_literal lit" and "rest = [] \<or> \<not> decimal_digit (hd rest)"
  shows "strtol (lit @ rest) = (clamp_long (decimal_value lit), length lit)"
proof -
  from assms(1) obtain c cs where lit: "lit = c # cs"
    by (cases lit) (auto simp: decimal_literal_def)
  show ?thesis
  proof (cases "c = CHR ''-'' \<or> c = CHR ''+''")
    case True
    with assms(1) lit have "cs \<noteq> []" "list_all decimal_digit cs"
      by (auto simp: decimal_literal_def)
    with True assms(2) show ?thesis
      using strtol_signed [of c cs rest] lit by (auto simp: decimal_value_def)
  next
    case False
    with assms(1) lit have "lit \<noteq> []" "list_all decimal_digit lit"
      by (auto simp: decimal_literal_def)
    with False assms(2) show ?thesis
      using strtol_digits [of lit rest] lit by (auto simp: decimal_value_def)
  qed
qed

lemma set_tl_subset: "set (tl xs) \<subseteq> set xs"
  by (cases xs) auto

lemma strtol_no_digit:
  assumes "\<forall>c\<in>set v. \<not> decimal_digit c"
  shows "strtol v = (0, 0)"
proof -
  let ?s1 = "dropWhile isspace v"
  let ?s2 = "if ?s1 \<noteq> [] \<and> (hd ?s1 = CHR ''-'' \<or> hd ?s1 = CHR ''+'') then tl ?s1 else ?s1"
  have "set ?s1 \<subseteq> set v"
    by (rule set_dropWhileD [THEN subsetI]) 
  moreover have "set (tl ?s1) \<subseteq> set ?s1"
    by (rule set_tl_subset)
  ultimately have "set ?s2 \<subseteq> set v"
    by auto
  with assms have "\<forall>c\<in>set ?s2. \<not> decimal_digit c"
    by blast
  then have "takeWhile decimal_digit ?s2 = []"
    by (cases ?s2) (simp_all del: dropWhile_eq_Nil_conv)
  then show ?thesis
    unfolding strtol_def isdigit_decimal Let_def by simp
qed

lemma int_of_long_id: "INT_MIN \<le> v \<Longrightarrow> v \<le> INT_MAX \<Longrightarrow> int_of_long v = v"
  by (simp add: int_of_long_def INT_MIN_def INT_MAX_def)

lemma get_int_literal:
  assumes "getopt u key = (SASL_OK, Some v)" and "decimal_literal v"
  shows "oauth2_config_get_int u key dv =
     (if INT_MIN \<le> decimal_value v \<and> decimal_value v \<le> INT_MAX then decimal_value v else dv)"
proof -
  have st: "strtol v = (clamp_long (decimal_value v), length v)"
    using strtol_literal [OF assms(2), of "[]"] by simp
  have ne: "v \<noteq> []"
    using assms(2) by (auto simp: decimal_literal_def)
  show ?thesis
    using assms(1) ne
    by (auto simp: oauth2_config_get_int_def st clamp_long_def int_of_long_id
        INT_MIN_def INT_MAX_def LONG_MAX_def LONG_MIN_def)
qed

lemma get_int_trailing:
  assumes "getopt u key = (SASL_OK, Some (lit @ rest))" and "decimal_literal lit"
    and "rest \<noteq> []" and "\<not> decimal_digit (hd rest)"
  shows "oauth2_config_get_int u key dv = dv"
proof -
  have st: "strtol (lit @ rest) = (clamp_long (decimal_value lit), length lit)"
    using strtol_literal [OF assms(2), of rest] assms(4) by simp
  show ?thesis
    using assms(1,3) by (simp add: oauth2_config_get_int_def st)
qed

lemma get_int_no_digit:
  assumes "getopt u key = (SASL_OK, Some v)" and "\<forall>c\<in>set v. \<not> decimal_digit c"
  shows "oauth2_config_get_int u key dv = dv"
  using assms(1) by (simp add: oauth2_config_get_int_def strtol_no_digit [OF assms(2)])

lemma load_fresh_code:
  "sasl_code (oauth2_config_load d (oauth2_config_init True) (Some u)) =
     Some (if both_forms u OAUTH2_CONF_DISCOVERY_URLS OAUTH2_CONF_DISCOVERY_URL
              \<or> both_forms u OAUTH2_CONF_ISSUERS OAUTH2_CONF_ISSUER
              \<or> (entries u OAUTH2_CONF_DISCOVERY_URLS OAUTH2_CONF_DISCOVERY_URL = []
                  \<and> entries u OAUTH2_CONF_ISSUERS OAUTH2_CONF_ISSUER = [])
              \<or> \<not> present u OAUTH2_CONF_CLIENT_ID
              \<or> both_forms u OAUTH2_CONF_AUDIENCES OAUTH2_CONF_AUDIENCE
           then SASL_FAIL else SASL_OK)"
  unfolding load_fresh Let_def by (simp split: if_splits) blast

lemma load_fresh_error:
  "logged_error (oauth2_config_load d (oauth2_config_init True) (Some u)) =
     (if both_forms u OAUTH2_CONF_DISCOVERY_URLS OAUTH2_CONF_DISCOVERY_URL
      then Some (Cannot_configure_both OAUTH2_CONF_DISCOVERY_URLS OAUTH2_CONF_DISCOVERY_URL)
      else if both_forms u OAUTH2_CONF_ISSUERS OAUTH2_CONF_ISSUER
      then Some (Cannot_configure_both OAUTH2_CONF_ISSUERS OAUTH2_CONF_ISSUER)
      else if entries u OAUTH2_CONF_DISCOVERY_URLS OAUTH2_CONF_DISCOVERY_URL = []
              \<and> entries u OAUTH2_CONF_ISSUERS OAUTH2_CONF_ISSUER = []
      then Some (Either_must_be_configured
                   OAUTH2_CONF_DISCOVERY_URLS OAUTH2_CONF_DISCOVERY_URL
                   OAUTH2_CONF_ISSUERS OAUTH2_CONF_ISSUER)
      else if \<not> present u OAUTH2_CONF_CLIENT_ID
      then Some (Must_be_configured OAUTH2_CONF_CLIENT_ID)
      else if both_forms u OAUTH2_CONF_AUDIENCES OAUTH2_CONF_AUDIENCE
      then Some (Cannot_configure_both OAUTH2_CONF_AUDIENCES OAUTH2_CONF_AUDIENCE)
      else None)"
  by (simp add: load_fresh Let_def)

lemma load_fresh_lists:
  assumes "\<not> both_forms u OAUTH2_CONF_DISCOVERY_URLS OAUTH2_CONF_DISCOVERY_URL"
    and "\<not> both_forms u OAUTH2_CONF_ISSUERS OAUTH2_CONF_ISSUER"
    and "entries u OAUTH2_CONF_DISCOVERY_URLS OAUTH2_CONF_DISCOVERY_URL = []"
    and "entries u OAUTH2_CONF_ISSUERS OAUTH2_CONF_ISSUER \<noteq> []"
  shows "\<exists>c. config_after (oauth2_config_load d (oauth2_config_init True) (Some u)) = Some c
     \<and> discovery_urls c =
          Some (map (\<lambda>s. Ptr (issuer_discovery_url s)) (entries u OAUTH2_CONF_ISSUERS OAUTH2_CONF_ISSUER))
     \<and> discovery_urls_count c = length (entries u OAUTH2_CONF_ISSUERS OAUTH2_CONF_ISSUER)
     \<and> issuers c = string_array (entries u OAUTH2_CONF_ISSUERS OAUTH2_CONF_ISSUER)
     \<and> issuers_count c = length (entries u OAUTH2_CONF_ISSUERS OAUTH2_CONF_ISSUER)"
  using assms by (simp add: load_fresh Let_def load_scalars_def)

lemma load_fresh_scalars:
  assumes "sasl_code (oauth2_config_load d (oauth2_config_init True) (Some u)) = Some SASL_OK"
  shows "\<exists>c. config_after (oauth2_config_load d (oauth2_config_init True) (Some u)) = Some c
     \<and> timeout c = oauth2_config_get_int u OAUTH2_CONF_TIMEOUT (OAUTH2_DEFAULT_TIMEOUT d)
     \<and> verify_signature c =
         oauth2_config_get_bool u OAUTH2_CONF_VERIFY_SIGNATURE (OAUTH2_DEFAULT_VERIFY_SIGNATURE d)
     \<and> ssl_verify c = oauth2_config_get_bool u OAUTH2_CONF_SSL_VERIFY (OAUTH2_DEFAULT_SSL_VERIFY d)
     \<and> debug c = oauth2_config_get_bool u OAUTH2_CONF_DEBUG (OAUTH2_DEFAULT_DEBUG d)"
  using assms
  by (simp add: load_fresh Let_def load_scalars_def SASL_OK_def SASL_FAIL_def split: if_splits)

lemma get_string_other_key:
  "key \<noteq> k \<Longrightarrow>
   oauth2_config_get_string (u\<lparr>getopt := (getopt u)(k := x)\<rparr>) key dv =
   oauth2_config_get_string u key dv"
  by (simp add: oauth2_config_get_string_def)

lemma present_other_key:
  "key \<noteq> k \<Longrightarrow> present (u\<lparr>getopt := (getopt u)(k := x)\<rparr>) key = present u key"
  by (simp add: present_def get_string_other_key)

lemma both_forms_other_key:
  "plural \<noteq> k \<Longrightarrow> singular \<noteq> k \<Longrightarrow>
   both_forms (u\<lparr>getopt := (getopt u)(k := x)\<rparr>) plural singular = both_forms u plural singular"
  by (simp add: both_forms_def present_other_key)

lemma entries_other_key:
  "plural \<noteq> k \<Longrightarrow> singular \<noteq> k \<Longrightarrow>
   entries (u\<lparr>getopt := (getopt u)(k := x)\<rparr>) plural singular = entries u plural singular"
  by (simp add: entries_def get_string_other_key cong: option.case_cong)

lemma load_code_other_key:
  assumes "k = OAUTH2_CONF_TIMEOUT \<or> k = OAUTH2_CONF_VERIFY_SIGNATURE
      \<or> k = OAUTH2_CONF_SSL_VERIFY \<or> k = OAUTH2_CONF_DEBUG"
  shows "sasl_code (oauth2_config_load d (oauth2_config_init True)
            (Some (u\<lparr>getopt := (getopt u)(k := x)\<rparr>))) =
         sasl_code (oauth2_config_load d (oauth2_config_init True) (Some u))"
  using assms
  by (elim disjE)
     (simp_all only: load_fresh_code present_other_key both_forms_other_key entries_other_key
        conf_key.distinct not_False_eq_True)

lemma settings_store_get:
  "oauth2_config_get_string (settings_store kvs) key None = map_of kvs key"
  by (simp add: settings_store_def oauth2_config_get_string_def split: option.splits)

text \<open>Facts about the example stores and values.\<close>

lemma settings_store_getopt:
  "getopt (settings_store kvs) key =
     (case map_of kvs key of Some v \<Rightarrow> (SASL_OK, Some v) | None \<Rightarrow> (SASL_FAIL, None))"
  by (simp add: settings_store_def)

lemma server_getopt_loads:
  "sasl_code (oauth2_config_load example_defaults (oauth2_config_init True) (Some server_getopt))
     = Some SASL_OK"
  by (simp add: load_fresh_code server_getopt_def both_forms_def present_def entries_def
      settings_store_get ws_tokens_def)

lemma decimal_examples:
  "decimal_literal ''30''" "decimal_value ''30'' = 30"
  "decimal_literal ''-5''" "decimal_value ''-5'' = - 5"
  "decimal_literal ''99999999999''" "decimal_value ''99999999999'' = 99999999999"
  "\<not> decimal_digit CHR ''s''" "\<forall>c\<in>set ''abc''. \<not> decimal_digit c"
  by (simp_all add: decimal_literal_def decimal_value_def decimal_digit_def digits_value_def
      digit_value_def)

lemma isspace_chars: "isspace c \<longleftrightarrow> white_space c"
proof
  assume "isspace c"
  then have "c = CHR '' '' \<or> (9 \<le> (of_char c :: nat) \<and> (of_char c :: nat) \<le> 13)"
    by (simp add: isspace_def)
  then have "c = CHR '' '' \<or> (of_char c :: nat) = 9 \<or> (of_char c :: nat) = 10
      \<or> (of_char c :: nat) = 11 \<or> (of_char c :: nat) = 12 \<or> (of_char c :: nat) = 13"
    by arith
  then have "c = CHR '' '' \<or> c = CHR 0x09 \<or> c = CHR 0x0A \<or> c = CHR 0x0B \<or> c = CHR 0x0C
      \<or> c = CHR 0x0D"
    by (simp add: char_eq_code [of c])
  then show "white_space c"
    by (auto simp: white_space_def)
next
  assume "white_space c"
  then show "isspace c"
    by (auto simp: white_space_def isspace_def)
qed

lemma isspace_white: "isspace = white_space"
  by (rule ext) (simp add: isspace_chars)

lemma strtol_after_space:
  "strtol v =
     (case strtol (dropWhile isspace v) of
        (x, e) \<Rightarrow> (x, if e = 0 then 0 else e + (length v - length (dropWhile isspace v))))"
proof -
  let ?s1 = "dropWhile isspace v"
  let ?s2 = "if ?s1 \<noteq> [] \<and> (hd ?s1 = CHR ''-'' \<or> hd ?s1 = CHR ''+'') then tl ?s1 else ?s1"
  let ?r = "dropWhile isdigit ?s2"
  have idem: "dropWhile isspace ?s1 = ?s1"
    by (rule dropWhile_idem)
  show ?thesis
  proof (cases "takeWhile isdigit ?s2 = []")
    case True
    then show ?thesis
      unfolding strtol_def [of v] strtol_def [of ?s1] idem Let_def by simp
  next
    case False
    have "length (takeWhile isdigit ?s2) + length ?r = length ?s2"
      by (metis length_append takeWhile_dropWhile_id)
    moreover have "0 < length (takeWhile isdigit ?s2)"
      using False by simp
    moreover have "length ?s2 \<le> length ?s1"
      by simp
    moreover have "length ?s1 \<le> length v"
      by (rule length_dropWhile_le)
    ultimately have "length ?r < length ?s1" "length ?s1 \<le> length v"
      by linarith+
    then have "length ?s1 - length ?r \<noteq> 0"
      "length ?s1 - length ?r + (length v - length ?s1) = length v - length ?r"
      by linarith+
    with False show ?thesis
      unfolding strtol_def [of v] strtol_def [of ?s1] idem Let_def by simp
  qed
qed

lemma strtol_all_read:
  assumes "dropWhile isspace s = s" and "s \<noteq> []" and "snd (strtol s) = length s"
  shows "decimal_literal s"
proof -
  let ?s2 = "if s \<noteq> [] \<and> (hd s = CHR ''-'' \<or> hd s = CHR ''+'') then tl s else s"
  have st: "strtol s =
     (if takeWhile decimal_digit ?s2 = [] then (0, 0)
      else (clamp_long
              (if s \<noteq> [] \<and> hd s = CHR ''-''
               then - foldl (\<lambda>a c. 10 * a + (int (of_char c) - 48)) 0 (takeWhile decimal_digit ?s2)
               else foldl (\<lambda>a c. 10 * a + (int (of_char c) - 48)) 0 (takeWhile decimal_digit ?s2)),
            length s - length (dropWhile decimal_digit ?s2)))"
    unfolding strtol_def assms(1) isdigit_decimal Let_def clamp_long_def by simp
  have ne: "takeWhile decimal_digit ?s2 \<noteq> []"
    using assms(2,3) st by auto
  then have "length s - length (dropWhile decimal_digit ?s2) = length s"
    using assms(3) st by simp
  moreover have "length (dropWhile decimal_digit ?s2) \<le> length s"
  proof -
    have "length (dropWhile decimal_digit ?s2) \<le> length ?s2"
      by (rule length_dropWhile_le)
    moreover have "length ?s2 \<le> length s"
      by simp
    ultimately show ?thesis by linarith
  qed
  moreover have "0 < length s"
    using assms(2) by simp
  ultimately have "length (dropWhile decimal_digit ?s2) = 0"
    by linarith
  then have "dropWhile decimal_digit ?s2 = []"
    by (simp only: length_0_conv)
  then have all: "list_all decimal_digit ?s2"
    by (simp add: list_all_iff)
  from ne have s2: "?s2 \<noteq> []"
    by auto
  obtain c cs where s: "s = c # cs"
    using assms(2) by (cases s) auto
  show ?thesis
    using all s2 s by (auto simp: decimal_literal_def)
qed

lemma get_int_present:
  assumes "getopt u key = (SASL_OK, Some v)"
  shows "oauth2_config_get_int u key dv =
     (if decimal_literal (dropWhile white_space v)
         \<and> INT_MIN \<le> decimal_value (dropWhile white_space v)
         \<and> decimal_value (dropWhile white_space v) \<le> INT_MAX
      then decimal_value (dropWhile white_space v) else dv)"
proof -
  let ?s1 = "dropWhile isspace v"
  have le: "length ?s1 \<le> length v"
    by (rule length_dropWhile_le)
  show ?thesis
  proof (cases "decimal_literal ?s1")
    case True
    then have ne: "?s1 \<noteq> []"
      by (cases ?s1) (simp_all add: decimal_literal_def del: dropWhile_eq_Nil_conv)
    have "strtol ?s1 = (clamp_long (decimal_value ?s1), length ?s1)"
      using strtol_literal [OF True, of "[]"] by simp
    then have st: "strtol v = (clamp_long (decimal_value ?s1), length v)"
      using ne le by (subst strtol_after_space) auto
    have nv: "v \<noteq> []"
      using ne by auto
    show ?thesis
      using assms True nv
      by (auto simp: oauth2_config_get_int_def st clamp_long_def int_of_long_id isspace_white
          INT_MIN_def INT_MAX_def LONG_MAX_def LONG_MIN_def)
  next
    case False
    obtain x e where xe: "strtol ?s1 = (x, e)"
      by (cases "strtol ?s1")
    have "e = 0 \<or> e < length ?s1"
    proof (cases "?s1 = []")
      case True
      have z: "strtol [] = (0, 0)"
        by (simp add: strtol_def)
      from xe have "strtol [] = (x, e)"
        unfolding True .
      with z show ?thesis by simp
    next
      case ne: False
      have "e \<noteq> length ?s1"
        using strtol_all_read [of ?s1] False ne xe by (auto simp: dropWhile_idem)
      moreover have "e \<le> length ?s1"
        using xe by (auto simp: strtol_def Let_def split: if_splits)
      ultimately show ?thesis by linarith
    qed
    then have "snd (strtol v) = 0 \<or> snd (strtol v) < length v"
      using le xe by (subst strtol_after_space) auto
    then have "oauth2_config_get_int u key dv = dv"
      using assms by (auto simp: oauth2_config_get_int_def split: prod.splits)
    with False show ?thesis
      by (simp add: isspace_white)
  qed
qed

lemma literal_last_digit: "decimal_literal s \<Longrightarrow> decimal_digit (last s)"
  by (cases s) (auto simp: decimal_literal_def list_all_iff split: if_splits)

lemma last_dropWhile: "dropWhile P v \<noteq> [] \<Longrightarrow> last (dropWhile P v) = last v"
  by (metis last_appendR takeWhile_dropWhile_id)

lemma white_space_examples:
  "dropWhile white_space '' 42'' = ''42''" "decimal_literal ''42''" "decimal_value ''42'' = 42"
  "dropWhile white_space ''x42'' = ''x42''" "\<not> decimal_literal ''x42''"
  "dropWhile white_space '' 42x'' = ''42x''" "\<not> decimal_literal ''42x''"
  by (simp_all add: white_space_def decimal_literal_def decimal_value_def decimal_digit_def
      digits_value_def digit_value_def)

section \<open>Theorems about the configuration code\<close>

subsection \<open>The string list parser\<close>

text \<open>
  C9: for every input, \<^verbatim>\<open>oauth2_parse_string_list\<close> returns NULL with \<^verbatim>\<open>*count\<close> set to
  0 exactly when the input is NULL, empty or without a token between the separators
  space, tab and newline; otherwise it returns an array that holds the
  whitespace-separated tokens of the input in their order, then NULL, and \<^verbatim>\<open>*count\<close>
  is the number of tokens.
\<close>

theorem parse_string_list_null_or_tokens:
  "oauth2_parse_string_list input =
     (case input of
        None \<Rightarrow> (None, 0)
      | Some s \<Rightarrow>
          if s = [] \<or> ws_tokens s = [] then (None, 0)
          else (Some (map Ptr (ws_tokens s) @ [NULL]), length (ws_tokens s)))"
  by (cases input) (auto simp: parse_string_list_tokens ws_tokens_def)

theorem parse_string_list_null_or_tokens_witness:
  "oauth2_parse_string_list (Some [CHR '' '', CHR ''a'', CHR 0x09, CHR ''b'', CHR ''c'', CHR 0x0A]) =
     (Some [Ptr ''a'', Ptr ''bc'', NULL], 2)
   \<and> oauth2_parse_string_list (Some [CHR '' '', CHR 0x0A]) = (None, 0)
   \<and> oauth2_parse_string_list (Some []) = (None, 0)
   \<and> oauth2_parse_string_list None = (None, 0)"
  using parse_string_list_null_or_tokens [of "Some [CHR '' '', CHR ''a'', CHR 0x09, CHR ''b'', CHR ''c'', CHR 0x0A]"]
    parse_string_list_null_or_tokens [of "Some [CHR '' '', CHR 0x0A]"]
    parse_string_list_null_or_tokens [of "Some []"]
    parse_string_list_null_or_tokens [of None]
  by (simp add: ws_tokens_def)

subsection \<open>The order of the loader's checks\<close>

text \<open>
  C10: \<^verbatim>\<open>oauth2_config_load\<close> checks in a fixed order: both discovery URL forms, both
  issuer forms, no discovery URL and no issuer, no client identifier, both audience
  forms; the first check that fails gives the logged error. So a configuration with
  both audience forms and no client identifier fails, never with the audience
  conflict, and with the missing client identifier once the three checks before it
  pass.
\<close>

theorem load_checks_in_order:
  "logged_error (oauth2_config_load d (oauth2_config_init True) (Some u)) =
     (if both_forms u OAUTH2_CONF_DISCOVERY_URLS OAUTH2_CONF_DISCOVERY_URL
      then Some (Cannot_configure_both OAUTH2_CONF_DISCOVERY_URLS OAUTH2_CONF_DISCOVERY_URL)
      else if both_forms u OAUTH2_CONF_ISSUERS OAUTH2_CONF_ISSUER
      then Some (Cannot_configure_both OAUTH2_CONF_ISSUERS OAUTH2_CONF_ISSUER)
      else if entries u OAUTH2_CONF_DISCOVERY_URLS OAUTH2_CONF_DISCOVERY_URL = []
              \<and> entries u OAUTH2_CONF_ISSUERS OAUTH2_CONF_ISSUER = []
      then Some (Either_must_be_configured
                   OAUTH2_CONF_DISCOVERY_URLS OAUTH2_CONF_DISCOVERY_URL
                   OAUTH2_CONF_ISSUERS OAUTH2_CONF_ISSUER)
      else if \<not> present u OAUTH2_CONF_CLIENT_ID
      then Some (Must_be_configured OAUTH2_CONF_CLIENT_ID)
      else if both_forms u OAUTH2_CONF_AUDIENCES OAUTH2_CONF_AUDIENCE
      then Some (Cannot_configure_both OAUTH2_CONF_AUDIENCES OAUTH2_CONF_AUDIENCE)
      else None)
   \<and> (both_forms u OAUTH2_CONF_AUDIENCES OAUTH2_CONF_AUDIENCE
        \<and> \<not> present u OAUTH2_CONF_CLIENT_ID \<longrightarrow>
      sasl_code (oauth2_config_load d (oauth2_config_init True) (Some u)) = Some SASL_FAIL
      \<and> logged_error (oauth2_config_load d (oauth2_config_init True) (Some u)) \<noteq>
          Some (Cannot_configure_both OAUTH2_CONF_AUDIENCES OAUTH2_CONF_AUDIENCE)
      \<and> (\<not> both_forms u OAUTH2_CONF_DISCOVERY_URLS OAUTH2_CONF_DISCOVERY_URL
          \<and> \<not> both_forms u OAUTH2_CONF_ISSUERS OAUTH2_CONF_ISSUER
          \<and> (entries u OAUTH2_CONF_DISCOVERY_URLS OAUTH2_CONF_DISCOVERY_URL \<noteq> []
              \<or> entries u OAUTH2_CONF_ISSUERS OAUTH2_CONF_ISSUER \<noteq> []) \<longrightarrow>
         logged_error (oauth2_config_load d (oauth2_config_init True) (Some u)) =
           Some (Must_be_configured OAUTH2_CONF_CLIENT_ID)))"
proof -
  have order: "logged_error (oauth2_config_load d (oauth2_config_init True) (Some u)) =
     (if both_forms u OAUTH2_CONF_DISCOVERY_URLS OAUTH2_CONF_DISCOVERY_URL
      then Some (Cannot_configure_both OAUTH2_CONF_DISCOVERY_URLS OAUTH2_CONF_DISCOVERY_URL)
      else if both_forms u OAUTH2_CONF_ISSUERS OAUTH2_CONF_ISSUER
      then Some (Cannot_configure_both OAUTH2_CONF_ISSUERS OAUTH2_CONF_ISSUER)
      else if entries u OAUTH2_CONF_DISCOVERY_URLS OAUTH2_CONF_DISCOVERY_URL = []
              \<and> entries u OAUTH2_CONF_ISSUERS OAUTH2_CONF_ISSUER = []
      then Some (Either_must_be_configured
                   OAUTH2_CONF_DISCOVERY_URLS OAUTH2_CONF_DISCOVERY_URL
                   OAUTH2_CONF_ISSUERS OAUTH2_CONF_ISSUER)
      else if \<not> present u OAUTH2_CONF_CLIENT_ID
      then Some (Must_be_configured OAUTH2_CONF_CLIENT_ID)
      else if both_forms u OAUTH2_CONF_AUDIENCES OAUTH2_CONF_AUDIENCE
      then Some (Cannot_configure_both OAUTH2_CONF_AUDIENCES OAUTH2_CONF_AUDIENCE)
      else None)"
    by (rule load_fresh_error)
  show ?thesis
    by (rule conjI, rule order) (simp add: order load_fresh_code)
qed

theorem load_checks_in_order_witness:
  "both_forms (settings_store
       [(OAUTH2_CONF_ISSUERS, ''https://test.issuer.com''),
        (OAUTH2_CONF_AUDIENCES, ''aud1 aud2''), (OAUTH2_CONF_AUDIENCE, ''aud3'')])
      OAUTH2_CONF_AUDIENCES OAUTH2_CONF_AUDIENCE
   \<and> \<not> present (settings_store
       [(OAUTH2_CONF_ISSUERS, ''https://test.issuer.com''),
        (OAUTH2_CONF_AUDIENCES, ''aud1 aud2''), (OAUTH2_CONF_AUDIENCE, ''aud3'')])
      OAUTH2_CONF_CLIENT_ID
   \<and> sasl_code (oauth2_config_load example_defaults (oauth2_config_init True)
        (Some (settings_store
          [(OAUTH2_CONF_ISSUERS, ''https://test.issuer.com''),
           (OAUTH2_CONF_AUDIENCES, ''aud1 aud2''), (OAUTH2_CONF_AUDIENCE, ''aud3'')]))) =
       Some SASL_FAIL
   \<and> logged_error (oauth2_config_load example_defaults (oauth2_config_init True)
        (Some (settings_store
          [(OAUTH2_CONF_ISSUERS, ''https://test.issuer.com''),
           (OAUTH2_CONF_AUDIENCES, ''aud1 aud2''), (OAUTH2_CONF_AUDIENCE, ''aud3'')]))) =
       Some (Must_be_configured OAUTH2_CONF_CLIENT_ID)"
  using load_checks_in_order [of example_defaults "settings_store
          [(OAUTH2_CONF_ISSUERS, ''https://test.issuer.com''),
           (OAUTH2_CONF_AUDIENCES, ''aud1 aud2''), (OAUTH2_CONF_AUDIENCE, ''aud3'')]"]
  by (simp add: both_forms_def present_def entries_def settings_store_get ws_tokens_def)

subsection \<open>Both forms of a setting family\<close>

text \<open>
  C1, as amended: when both forms of the discovery URL setting or of the issuer setting
  are present, a load from a fresh configuration fails and the logged error is a
  \<open>ConflictingSetting\<close>, whatever the other settings are. When both forms of the
  audience setting are present the load fails as well, and the error is a
  \<open>ConflictingSetting\<close> exactly when an earlier family is in conflict or the checks
  before the audience check pass: some discovery URL or issuer entry, and a client
  identifier. The counterexample is a store with an issuer and both audience forms but
  no client identifier: its error is the missing client identifier.
\<close>

theorem conflicting_forms_fail:
  "(both_forms u OAUTH2_CONF_DISCOVERY_URLS OAUTH2_CONF_DISCOVERY_URL
      \<or> both_forms u OAUTH2_CONF_ISSUERS OAUTH2_CONF_ISSUER \<longrightarrow>
    sasl_code (oauth2_config_load d (oauth2_config_init True) (Some u)) = Some SASL_FAIL
    \<and> map_option error_kind
          (logged_error (oauth2_config_load d (oauth2_config_init True) (Some u))) =
        Some ConflictingSetting)
   \<and> (both_forms u OAUTH2_CONF_AUDIENCES OAUTH2_CONF_AUDIENCE \<longrightarrow>
    sasl_code (oauth2_config_load d (oauth2_config_init True) (Some u)) = Some SASL_FAIL
    \<and> (map_option error_kind
          (logged_error (oauth2_config_load d (oauth2_config_init True) (Some u))) =
        Some ConflictingSetting
        \<longleftrightarrow>
        both_forms u OAUTH2_CONF_DISCOVERY_URLS OAUTH2_CONF_DISCOVERY_URL
        \<or> both_forms u OAUTH2_CONF_ISSUERS OAUTH2_CONF_ISSUER
        \<or> (entries u OAUTH2_CONF_DISCOVERY_URLS OAUTH2_CONF_DISCOVERY_URL \<noteq> []
             \<or> entries u OAUTH2_CONF_ISSUERS OAUTH2_CONF_ISSUER \<noteq> [])
            \<and> present u OAUTH2_CONF_CLIENT_ID))"
  unfolding load_fresh_code load_fresh_error by auto

theorem conflicting_forms_fail_witness:
  "both_forms (settings_store
       [(OAUTH2_CONF_DISCOVERY_URLS, ''https://a.example/d''),
        (OAUTH2_CONF_DISCOVERY_URL, ''https://b.example/d'')])
      OAUTH2_CONF_DISCOVERY_URLS OAUTH2_CONF_DISCOVERY_URL
   \<and> map_option error_kind
        (logged_error (oauth2_config_load example_defaults (oauth2_config_init True)
          (Some (settings_store
            [(OAUTH2_CONF_DISCOVERY_URLS, ''https://a.example/d''),
             (OAUTH2_CONF_DISCOVERY_URL, ''https://b.example/d'')])))) =
      Some ConflictingSetting
   \<and> both_forms (settings_store
       [(OAUTH2_CONF_ISSUERS, ''https://test.issuer.com''),
        (OAUTH2_CONF_CLIENT_ID, ''test_client''),
        (OAUTH2_CONF_AUDIENCES, ''aud1 aud2''), (OAUTH2_CONF_AUDIENCE, ''aud3'')])
      OAUTH2_CONF_AUDIENCES OAUTH2_CONF_AUDIENCE
   \<and> sasl_code (oauth2_config_load example_defaults (oauth2_config_init True)
        (Some (settings_store
          [(OAUTH2_CONF_ISSUERS, ''https://test.issuer.com''),
           (OAUTH2_CONF_CLIENT_ID, ''test_client''),
           (OAUTH2_CONF_AUDIENCES, ''aud1 aud2''), (OAUTH2_CONF_AUDIENCE, ''aud3'')]))) =
      Some SASL_FAIL
   \<and> map_option error_kind
        (logged_error (oauth2_config_load example_defaults (oauth2_config_init True)
          (Some (settings_store
            [(OAUTH2_CONF_ISSUERS, ''https://test.issuer.com''),
             (OAUTH2_CONF_CLIENT_ID, ''test_client''),
             (OAUTH2_CONF_AUDIENCES, ''aud1 aud2''), (OAUTH2_CONF_AUDIENCE, ''aud3'')])))) =
      Some ConflictingSetting"
  using conflicting_forms_fail [of "settings_store
            [(OAUTH2_CONF_DISCOVERY_URLS, ''https://a.example/d''),
             (OAUTH2_CONF_DISCOVERY_URL, ''https://b.example/d'')]" example_defaults]
    conflicting_forms_fail [of "settings_store
          [(OAUTH2_CONF_ISSUERS, ''https://test.issuer.com''),
           (OAUTH2_CONF_CLIENT_ID, ''test_client''),
           (OAUTH2_CONF_AUDIENCES, ''aud1 aud2''), (OAUTH2_CONF_AUDIENCE, ''aud3'')]"
        example_defaults]
  by (simp add: both_forms_def present_def entries_def settings_store_get ws_tokens_def)

theorem audience_conflict_counterexample:
  "both_forms (settings_store
       [(OAUTH2_CONF_ISSUERS, ''https://test.issuer.com''),
        (OAUTH2_CONF_AUDIENCES, ''aud1 aud2''), (OAUTH2_CONF_AUDIENCE, ''aud3'')])
      OAUTH2_CONF_AUDIENCES OAUTH2_CONF_AUDIENCE
   \<and> map_option error_kind
        (logged_error (oauth2_config_load example_defaults (oauth2_config_init True)
          (Some (settings_store
            [(OAUTH2_CONF_ISSUERS, ''https://test.issuer.com''),
             (OAUTH2_CONF_AUDIENCES, ''aud1 aud2''), (OAUTH2_CONF_AUDIENCE, ''aud3'')])))) =
      Some MissingRequired
   \<and> map_option error_kind
        (logged_error (oauth2_config_load example_defaults (oauth2_config_init True)
          (Some (settings_store
            [(OAUTH2_CONF_ISSUERS, ''https://test.issuer.com''),
             (OAUTH2_CONF_AUDIENCES, ''aud1 aud2''), (OAUTH2_CONF_AUDIENCE, ''aud3'')])))) \<noteq>
      Some ConflictingSetting"
  by (simp add: load_fresh_error both_forms_def present_def entries_def settings_store_get
      ws_tokens_def)

subsection \<open>Settings that are required\<close>

text \<open>
  C2, as amended: the logged error of a load from a fresh configuration is a
  \<open>MissingRequired\<close> exactly when neither the discovery URL family nor the issuer
  family has both forms present and either none of the two families resolves to an
  entry or the client identifier is absent; the load then returns \<^verbatim>\<open>SASL_FAIL\<close>. The
  counterexample has two stores: one with an issuer and a client identifier and neither
  audience form, which loads; one with both discovery URL forms and no client
  identifier, whose error is the conflict.
\<close>

theorem missing_required_when:
  "(map_option error_kind
      (logged_error (oauth2_config_load d (oauth2_config_init True) (Some u))) =
    Some MissingRequired
    \<longleftrightarrow>
    \<not> both_forms u OAUTH2_CONF_DISCOVERY_URLS OAUTH2_CONF_DISCOVERY_URL
    \<and> \<not> both_forms u OAUTH2_CONF_ISSUERS OAUTH2_CONF_ISSUER
    \<and> (entries u OAUTH2_CONF_DISCOVERY_URLS OAUTH2_CONF_DISCOVERY_URL = []
          \<and> entries u OAUTH2_CONF_ISSUERS OAUTH2_CONF_ISSUER = []
        \<or> \<not> present u OAUTH2_CONF_CLIENT_ID))
   \<and> (map_option error_kind
        (logged_error (oauth2_config_load d (oauth2_config_init True) (Some u))) =
       Some MissingRequired \<longrightarrow>
      sasl_code (oauth2_config_load d (oauth2_config_init True) (Some u)) = Some SASL_FAIL)"
  unfolding load_fresh_code load_fresh_error by auto

theorem missing_required_when_witness:
  "map_option error_kind
     (logged_error (oauth2_config_load example_defaults (oauth2_config_init True)
        (Some (settings_store [])))) = Some MissingRequired
   \<and> sasl_code (oauth2_config_load example_defaults (oauth2_config_init True)
        (Some (settings_store []))) = Some SASL_FAIL
   \<and> \<not> present (settings_store
         [(OAUTH2_CONF_ISSUERS, ''https://test.issuer.com''),
          (OAUTH2_CONF_AUDIENCES, ''test_audience'')]) OAUTH2_CONF_CLIENT_ID
   \<and> map_option error_kind
     (logged_error (oauth2_config_load example_defaults (oauth2_config_init True)
        (Some (settings_store
           [(OAUTH2_CONF_ISSUERS, ''https://test.issuer.com''),
            (OAUTH2_CONF_AUDIENCES, ''test_audience'')])))) = Some MissingRequired
   \<and> sasl_code (oauth2_config_load example_defaults (oauth2_config_init True)
        (Some (settings_store
           [(OAUTH2_CONF_ISSUERS, ''https://test.issuer.com''),
            (OAUTH2_CONF_AUDIENCES, ''test_audience'')]))) = Some SASL_FAIL"
  using missing_required_when [of example_defaults "settings_store []"]
    missing_required_when [of example_defaults "settings_store
           [(OAUTH2_CONF_ISSUERS, ''https://test.issuer.com''),
            (OAUTH2_CONF_AUDIENCES, ''test_audience'')]"]
  by (simp add: both_forms_def present_def entries_def settings_store_get ws_tokens_def)

theorem missing_required_counterexample:
  "\<not> present (settings_store
        [(OAUTH2_CONF_ISSUERS, ''https://test.issuer.com''),
         (OAUTH2_CONF_CLIENT_ID, ''test_client'')]) OAUTH2_CONF_AUDIENCES
   \<and> \<not> present (settings_store
        [(OAUTH2_CONF_ISSUERS, ''https://test.issuer.com''),
         (OAUTH2_CONF_CLIENT_ID, ''test_client'')]) OAUTH2_CONF_AUDIENCE
   \<and> sasl_code (oauth2_config_load example_defaults (oauth2_config_init True)
        (Some (settings_store
           [(OAUTH2_CONF_ISSUERS, ''https://test.issuer.com''),
            (OAUTH2_CONF_CLIENT_ID, ''test_client'')]))) = Some SASL_OK
   \<and> logged_error (oauth2_config_load example_defaults (oauth2_config_init True)
        (Some (settings_store
           [(OAUTH2_CONF_ISSUERS, ''https://test.issuer.com''),
            (OAUTH2_CONF_CLIENT_ID, ''test_client'')]))) = None
   \<and> \<not> present (settings_store
        [(OAUTH2_CONF_DISCOVERY_URLS, ''https://a.example/d''),
         (OAUTH2_CONF_DISCOVERY_URL, ''https://b.example/d'')]) OAUTH2_CONF_CLIENT_ID
   \<and> map_option error_kind
        (logged_error (oauth2_config_load example_defaults (oauth2_config_init True)
          (Some (settings_store
            [(OAUTH2_CONF_DISCOVERY_URLS, ''https://a.example/d''),
             (OAUTH2_CONF_DISCOVERY_URL, ''https://b.example/d'')])))) =
      Some ConflictingSetting"
  by (simp add: load_fresh_error load_fresh_code both_forms_def present_def entries_def
      settings_store_get ws_tokens_def)

subsection \<open>Discovery URLs made from issuers\<close>

text \<open>
  C3: when the discovery URL settings resolve to no entry and one form of the issuer
  setting gives at least one issuer, a load from a fresh configuration leaves one
  discovery URL per issuer in \<^verbatim>\<open>config->discovery_urls\<close>, in the order of the issuers,
  each the issuer without one trailing \<open>/\<close> followed by
  \<open>/.well-known/openid-configuration\<close>, with the count of the issuers; and the issuer
  \<open>https://idp.example/realm/\<close> gives
  \<open>https://idp.example/realm/.well-known/openid-configuration\<close>.
\<close>

theorem issuer_discovery_urls:
  "(\<not> both_forms u OAUTH2_CONF_DISCOVERY_URLS OAUTH2_CONF_DISCOVERY_URL
    \<and> entries u OAUTH2_CONF_DISCOVERY_URLS OAUTH2_CONF_DISCOVERY_URL = []
    \<and> \<not> both_forms u OAUTH2_CONF_ISSUERS OAUTH2_CONF_ISSUER
    \<and> entries u OAUTH2_CONF_ISSUERS OAUTH2_CONF_ISSUER \<noteq> [] \<longrightarrow>
    map_option discovery_urls
      (config_after (oauth2_config_load d (oauth2_config_init True) (Some u))) =
      Some (Some (map (\<lambda>issuer. Ptr (derived_endpoint issuer))
                    (entries u OAUTH2_CONF_ISSUERS OAUTH2_CONF_ISSUER)))
    \<and> map_option discovery_urls_count
      (config_after (oauth2_config_load d (oauth2_config_init True) (Some u))) =
      Some (length (entries u OAUTH2_CONF_ISSUERS OAUTH2_CONF_ISSUER))
    \<and> map_option issuers
      (config_after (oauth2_config_load d (oauth2_config_init True) (Some u))) =
      Some (Some (map Ptr (entries u OAUTH2_CONF_ISSUERS OAUTH2_CONF_ISSUER) @ [NULL])))
   \<and> issuer_discovery_url ''https://idp.example/realm/'' =
       ''https://idp.example/realm/.well-known/openid-configuration''"
proof (intro conjI impI)
  assume a: "\<not> both_forms u OAUTH2_CONF_DISCOVERY_URLS OAUTH2_CONF_DISCOVERY_URL
    \<and> entries u OAUTH2_CONF_DISCOVERY_URLS OAUTH2_CONF_DISCOVERY_URL = []
    \<and> \<not> both_forms u OAUTH2_CONF_ISSUERS OAUTH2_CONF_ISSUER
    \<and> entries u OAUTH2_CONF_ISSUERS OAUTH2_CONF_ISSUER \<noteq> []"
  then obtain c where c:
    "config_after (oauth2_config_load d (oauth2_config_init True) (Some u)) = Some c"
    "discovery_urls c =
       Some (map (\<lambda>s. Ptr (issuer_discovery_url s)) (entries u OAUTH2_CONF_ISSUERS OAUTH2_CONF_ISSUER))"
    "discovery_urls_count c = length (entries u OAUTH2_CONF_ISSUERS OAUTH2_CONF_ISSUER)"
    "issuers c = string_array (entries u OAUTH2_CONF_ISSUERS OAUTH2_CONF_ISSUER)"
    using load_fresh_lists [of u d] by blast
  show "map_option discovery_urls
      (config_after (oauth2_config_load d (oauth2_config_init True) (Some u))) =
      Some (Some (map (\<lambda>issuer. Ptr (derived_endpoint issuer))
                    (entries u OAUTH2_CONF_ISSUERS OAUTH2_CONF_ISSUER)))"
    using c by (simp add: issuer_discovery_url_derived)
  show "map_option discovery_urls_count
      (config_after (oauth2_config_load d (oauth2_config_init True) (Some u))) =
      Some (length (entries u OAUTH2_CONF_ISSUERS OAUTH2_CONF_ISSUER))"
    using c by simp
  show "map_option issuers
      (config_after (oauth2_config_load d (oauth2_config_init True) (Some u))) =
      Some (Some (map Ptr (entries u OAUTH2_CONF_ISSUERS OAUTH2_CONF_ISSUER) @ [NULL]))"
    using c a by (simp add: string_array_def)
next
  show "issuer_discovery_url ''https://idp.example/realm/'' =
       ''https://idp.example/realm/.well-known/openid-configuration''"
    by (simp add: issuer_discovery_url_derived derived_endpoint_def)
qed

theorem issuer_discovery_urls_witness:
  "map_option discovery_urls
      (config_after (oauth2_config_load example_defaults (oauth2_config_init True)
         (Some (settings_store
            [(OAUTH2_CONF_ISSUERS, ''https://idp.example/realm/ https://test.issuer.com'')])))) =
      Some (Some [Ptr ''https://idp.example/realm/.well-known/openid-configuration'',
                  Ptr ''https://test.issuer.com/.well-known/openid-configuration''])
   \<and> map_option discovery_urls_count
      (config_after (oauth2_config_load example_defaults (oauth2_config_init True)
         (Some (settings_store
            [(OAUTH2_CONF_ISSUERS, ''https://idp.example/realm/ https://test.issuer.com'')])))) =
      Some 2"
  using issuer_discovery_urls [of "settings_store
            [(OAUTH2_CONF_ISSUERS, ''https://idp.example/realm/ https://test.issuer.com'')]"
          example_defaults]
  by (simp add: both_forms_def present_def entries_def settings_store_get ws_tokens_def
      derived_endpoint_def numeral_2_eq_2)

subsection \<open>Integer settings\<close>

text \<open>
  C6: for a present integer setting, \<^verbatim>\<open>oauth2_config_get_int\<close> returns the value of the
  setting exactly when the setting is, after any leading white space, a decimal integer
  (an optional sign and one or more digits, nothing after them) within the range of
  \<^verbatim>\<open>int\<close>, and the default for every other value: an empty one, one without a digit,
  one with any other character before the number, one whose last character is not a
  digit or that goes on after a decimal integer, and a decimal integer outside the range
  of \<^verbatim>\<open>int\<close>. The range check is that of a platform whose \<^verbatim>\<open>long\<close> has 64 bits.
  Whatever the timeout setting holds, the loader returns the same code, and on success
  the loaded timeout is the result of \<^verbatim>\<open>oauth2_config_get_int\<close> with the default
  timeout.
\<close>

theorem int_setting_default_or_parsed:
  "(getopt u key = (SASL_OK, Some v) \<longrightarrow>
      oauth2_config_get_int u key dv =
        (if decimal_literal (dropWhile white_space v)
            \<and> INT_MIN \<le> decimal_value (dropWhile white_space v)
            \<and> decimal_value (dropWhile white_space v) \<le> INT_MAX
         then decimal_value (dropWhile white_space v) else dv)
      \<and> (\<not> decimal_literal (dropWhile white_space v) \<longrightarrow> oauth2_config_get_int u key dv = dv)
      \<and> (v = [] \<longrightarrow> oauth2_config_get_int u key dv = dv)
      \<and> ((\<forall>c\<in>set v. \<not> decimal_digit c) \<longrightarrow> oauth2_config_get_int u key dv = dv)
      \<and> (v \<noteq> [] \<and> \<not> decimal_digit (last v) \<longrightarrow> oauth2_config_get_int u key dv = dv)
      \<and> (\<forall>lit rest. v = lit @ rest \<and> decimal_literal lit \<and> rest \<noteq> []
             \<and> \<not> decimal_digit (hd rest) \<longrightarrow> oauth2_config_get_int u key dv = dv)
      \<and> (decimal_literal v \<and> (decimal_value v < INT_MIN \<or> INT_MAX < decimal_value v) \<longrightarrow>
           oauth2_config_get_int u key dv = dv)
      \<and> (decimal_literal v \<and> INT_MIN \<le> decimal_value v \<and> decimal_value v \<le> INT_MAX \<longrightarrow>
           oauth2_config_get_int u key dv = decimal_value v))
   \<and> sasl_code (oauth2_config_load d (oauth2_config_init True)
         (Some (u\<lparr>getopt := (getopt u)(OAUTH2_CONF_TIMEOUT := x)\<rparr>))) =
       sasl_code (oauth2_config_load d (oauth2_config_init True) (Some u))
   \<and> (sasl_code (oauth2_config_load d (oauth2_config_init True) (Some u)) = Some SASL_OK \<longrightarrow>
       map_option timeout
          (config_after (oauth2_config_load d (oauth2_config_init True) (Some u))) =
        Some (oauth2_config_get_int u OAUTH2_CONF_TIMEOUT (OAUTH2_DEFAULT_TIMEOUT d)))"
proof (intro conjI impI allI)
  assume g: "getopt u key = (SASL_OK, Some v)"
  show full: "oauth2_config_get_int u key dv =
        (if decimal_literal (dropWhile white_space v)
            \<and> INT_MIN \<le> decimal_value (dropWhile white_space v)
            \<and> decimal_value (dropWhile white_space v) \<le> INT_MAX
         then decimal_value (dropWhile white_space v) else dv)"
    using g by (rule get_int_present)
  {
    assume "\<not> decimal_literal (dropWhile white_space v)"
    then show "oauth2_config_get_int u key dv = dv"
      using full by simp
  }
  {
    assume "v = []"
    then have "\<forall>c\<in>set v. \<not> decimal_digit c" by simp
    then show "oauth2_config_get_int u key dv = dv"
      using g by (rule get_int_no_digit [rotated])
  }
  {
    assume "\<forall>c\<in>set v. \<not> decimal_digit c"
    then show "oauth2_config_get_int u key dv = dv"
      using g by (rule get_int_no_digit [rotated])
  }
  {
    assume a: "v \<noteq> [] \<and> \<not> decimal_digit (last v)"
    have "\<not> decimal_literal (dropWhile white_space v)"
    proof
      assume l: "decimal_literal (dropWhile white_space v)"
      then have "dropWhile white_space v \<noteq> []"
        by (cases "dropWhile white_space v")
           (simp_all add: decimal_literal_def del: dropWhile_eq_Nil_conv)
      then have "last (dropWhile white_space v) = last v"
        by (rule last_dropWhile)
      with l a show False
        using literal_last_digit [of "dropWhile white_space v"] by simp
    qed
    then show "oauth2_config_get_int u key dv = dv"
      using full by simp
  }
  {
    fix lit rest
    assume "v = lit @ rest \<and> decimal_literal lit \<and> rest \<noteq> [] \<and> \<not> decimal_digit (hd rest)"
    then show "oauth2_config_get_int u key dv = dv"
      using g get_int_trailing [of u key lit rest dv] by simp
  }
  {
    assume "decimal_literal v \<and> (decimal_value v < INT_MIN \<or> INT_MAX < decimal_value v)"
    then show "oauth2_config_get_int u key dv = dv"
      using g get_int_literal [of u key v dv] by auto
  }
  {
    assume "decimal_literal v \<and> INT_MIN \<le> decimal_value v \<and> decimal_value v \<le> INT_MAX"
    then show "oauth2_config_get_int u key dv = decimal_value v"
      using g get_int_literal [of u key v dv] by auto
  }
next
  show "sasl_code (oauth2_config_load d (oauth2_config_init True)
         (Some (u\<lparr>getopt := (getopt u)(OAUTH2_CONF_TIMEOUT := x)\<rparr>))) =
       sasl_code (oauth2_config_load d (oauth2_config_init True) (Some u))"
    by (rule load_code_other_key) simp
next
  assume "sasl_code (oauth2_config_load d (oauth2_config_init True) (Some u)) = Some SASL_OK"
  then obtain c where
    "config_after (oauth2_config_load d (oauth2_config_init True) (Some u)) = Some c"
    "timeout c = oauth2_config_get_int u OAUTH2_CONF_TIMEOUT (OAUTH2_DEFAULT_TIMEOUT d)"
    using load_fresh_scalars [of d u] by blast
  then show "map_option timeout
          (config_after (oauth2_config_load d (oauth2_config_init True) (Some u))) =
        Some (oauth2_config_get_int u OAUTH2_CONF_TIMEOUT (OAUTH2_DEFAULT_TIMEOUT d))"
    by simp
qed

theorem int_setting_default_or_parsed_witness:
  "oauth2_config_get_int (settings_store [(OAUTH2_CONF_TIMEOUT, ''30'')]) OAUTH2_CONF_TIMEOUT 10 = 30
   \<and> oauth2_config_get_int (settings_store [(OAUTH2_CONF_TIMEOUT, ''-5'')]) OAUTH2_CONF_TIMEOUT 10 = - 5
   \<and> oauth2_config_get_int (settings_store [(OAUTH2_CONF_TIMEOUT, [])]) OAUTH2_CONF_TIMEOUT 10 = 10
   \<and> oauth2_config_get_int (settings_store [(OAUTH2_CONF_TIMEOUT, ''abc'')]) OAUTH2_CONF_TIMEOUT 10 = 10
   \<and> oauth2_config_get_int (settings_store [(OAUTH2_CONF_TIMEOUT, ''30s'')]) OAUTH2_CONF_TIMEOUT 10 = 10
   \<and> oauth2_config_get_int (settings_store [(OAUTH2_CONF_TIMEOUT, ''99999999999'')])
        OAUTH2_CONF_TIMEOUT 10 = 10
   \<and> oauth2_config_get_int (settings_store [(OAUTH2_CONF_TIMEOUT, '' 42'')]) OAUTH2_CONF_TIMEOUT 10 = 42
   \<and> oauth2_config_get_int (settings_store [(OAUTH2_CONF_TIMEOUT, ''x42'')]) OAUTH2_CONF_TIMEOUT 10 = 10
   \<and> oauth2_config_get_int (settings_store [(OAUTH2_CONF_TIMEOUT, '' 42x'')]) OAUTH2_CONF_TIMEOUT 10 = 10
   \<and> sasl_code (oauth2_config_load example_defaults (oauth2_config_init True)
        (Some (server_getopt\<lparr>getopt := (getopt server_getopt)
                 (OAUTH2_CONF_TIMEOUT := (SASL_OK, Some ''abc''))\<rparr>))) = Some SASL_OK
   \<and> map_option timeout
        (config_after (oauth2_config_load example_defaults (oauth2_config_init True)
           (Some (server_getopt\<lparr>getopt := (getopt server_getopt)
                 (OAUTH2_CONF_TIMEOUT := (SASL_OK, Some ''abc''))\<rparr>)))) = Some 10"
proof -
  have g: "\<And>v. getopt (settings_store [(OAUTH2_CONF_TIMEOUT, v)]) OAUTH2_CONF_TIMEOUT
      = (SASL_OK, Some v)"
    by (simp add: settings_store_getopt)
  have r: "INT_MIN \<le> 30" "30 \<le> INT_MAX" "INT_MIN \<le> - 5" "- 5 \<le> INT_MAX"
    "INT_MAX < 99999999999"
    by (simp_all add: INT_MIN_def INT_MAX_def)
  have 1: "oauth2_config_get_int (settings_store [(OAUTH2_CONF_TIMEOUT, ''30'')])
      OAUTH2_CONF_TIMEOUT 10 = 30"
    using int_setting_default_or_parsed [of "settings_store [(OAUTH2_CONF_TIMEOUT, ''30'')]"
        OAUTH2_CONF_TIMEOUT "''30''" 10 example_defaults "(SASL_OK, None)"]
      g [of "''30''"] decimal_examples(1,2) r(1,2)
    by simp
  have 2: "oauth2_config_get_int (settings_store [(OAUTH2_CONF_TIMEOUT, ''-5'')])
      OAUTH2_CONF_TIMEOUT 10 = - 5"
    using int_setting_default_or_parsed [of "settings_store [(OAUTH2_CONF_TIMEOUT, ''-5'')]"
        OAUTH2_CONF_TIMEOUT "''-5''" 10 example_defaults "(SASL_OK, None)"]
      g [of "''-5''"] decimal_examples(3,4) r(3,4)
    by simp
  have 3: "oauth2_config_get_int (settings_store [(OAUTH2_CONF_TIMEOUT, [])])
      OAUTH2_CONF_TIMEOUT 10 = 10"
    using int_setting_default_or_parsed [of "settings_store [(OAUTH2_CONF_TIMEOUT, [])]"
        OAUTH2_CONF_TIMEOUT "[]" 10 example_defaults "(SASL_OK, None)"]
      g [of "[]"]
    by simp
  have 4: "oauth2_config_get_int (settings_store [(OAUTH2_CONF_TIMEOUT, ''abc'')])
      OAUTH2_CONF_TIMEOUT 10 = 10"
    using int_setting_default_or_parsed [of "settings_store [(OAUTH2_CONF_TIMEOUT, ''abc'')]"
        OAUTH2_CONF_TIMEOUT "''abc''" 10 example_defaults "(SASL_OK, None)"]
      g [of "''abc''"] decimal_examples(8)
    by blast
  have 5: "oauth2_config_get_int (settings_store [(OAUTH2_CONF_TIMEOUT, ''30s'')])
      OAUTH2_CONF_TIMEOUT 10 = 10"
  proof -
    have "''30s'' = ''30'' @ ''s'' \<and> decimal_literal ''30'' \<and> ''s'' \<noteq> []
        \<and> \<not> decimal_digit (hd ''s'')"
      using decimal_examples(1,7) by simp
    then show ?thesis
      using int_setting_default_or_parsed [of "settings_store [(OAUTH2_CONF_TIMEOUT, ''30s'')]"
          OAUTH2_CONF_TIMEOUT "''30s''" 10 example_defaults "(SASL_OK, None)"]
        g [of "''30s''"]
      by blast
  qed
  have 6: "oauth2_config_get_int (settings_store [(OAUTH2_CONF_TIMEOUT, ''99999999999'')])
      OAUTH2_CONF_TIMEOUT 10 = 10"
    using int_setting_default_or_parsed
        [of "settings_store [(OAUTH2_CONF_TIMEOUT, ''99999999999'')]"
        OAUTH2_CONF_TIMEOUT "''99999999999''" 10 example_defaults "(SASL_OK, None)"]
      g [of "''99999999999''"] decimal_examples(5,6) r(5)
    by simp
  have r42: "INT_MIN \<le> 42" "42 \<le> INT_MAX"
    by (simp_all add: INT_MIN_def INT_MAX_def)
  have 7: "oauth2_config_get_int (settings_store [(OAUTH2_CONF_TIMEOUT, '' 42'')])
      OAUTH2_CONF_TIMEOUT 10 = 42"
    using int_setting_default_or_parsed [of "settings_store [(OAUTH2_CONF_TIMEOUT, '' 42'')]"
        OAUTH2_CONF_TIMEOUT "'' 42''" 10 example_defaults "(SASL_OK, None)"]
      g [of "'' 42''"] white_space_examples(1,2,3) r42
    by simp
  have 8: "oauth2_config_get_int (settings_store [(OAUTH2_CONF_TIMEOUT, ''x42'')])
      OAUTH2_CONF_TIMEOUT 10 = 10"
    using int_setting_default_or_parsed [of "settings_store [(OAUTH2_CONF_TIMEOUT, ''x42'')]"
        OAUTH2_CONF_TIMEOUT "''x42''" 10 example_defaults "(SASL_OK, None)"]
      g [of "''x42''"] white_space_examples(4,5)
    by simp
  have 9: "oauth2_config_get_int (settings_store [(OAUTH2_CONF_TIMEOUT, '' 42x'')])
      OAUTH2_CONF_TIMEOUT 10 = 10"
    using int_setting_default_or_parsed [of "settings_store [(OAUTH2_CONF_TIMEOUT, '' 42x'')]"
        OAUTH2_CONF_TIMEOUT "'' 42x''" 10 example_defaults "(SASL_OK, None)"]
      g [of "'' 42x''"] white_space_examples(6,7)
    by simp
  let ?u = "server_getopt\<lparr>getopt := (getopt server_getopt)
                 (OAUTH2_CONF_TIMEOUT := (SASL_OK, Some ''abc''))\<rparr>"
  have gu: "getopt ?u OAUTH2_CONF_TIMEOUT = (SASL_OK, Some ''abc'')"
    by simp
  have ok: "sasl_code (oauth2_config_load example_defaults (oauth2_config_init True) (Some ?u))
      = Some SASL_OK"
    using int_setting_default_or_parsed [of server_getopt OAUTH2_CONF_TIMEOUT "''abc''" 10
        example_defaults "(SASL_OK, Some ''abc'')"] server_getopt_loads
    by simp
  have tv: "oauth2_config_get_int ?u OAUTH2_CONF_TIMEOUT (OAUTH2_DEFAULT_TIMEOUT example_defaults)
      = OAUTH2_DEFAULT_TIMEOUT example_defaults"
    using int_setting_default_or_parsed [of ?u OAUTH2_CONF_TIMEOUT "''abc''"
        "OAUTH2_DEFAULT_TIMEOUT example_defaults" example_defaults "(SASL_OK, None)"]
      gu decimal_examples(8)
    by blast
  have ld: "map_option timeout
        (config_after (oauth2_config_load example_defaults (oauth2_config_init True) (Some ?u)))
      = Some 10"
  proof -
    have dt: "OAUTH2_DEFAULT_TIMEOUT example_defaults = 10"
      by (simp add: example_defaults_def)
    have "map_option timeout
        (config_after (oauth2_config_load example_defaults (oauth2_config_init True) (Some ?u)))
      = Some (oauth2_config_get_int ?u OAUTH2_CONF_TIMEOUT
                (OAUTH2_DEFAULT_TIMEOUT example_defaults))"
      using int_setting_default_or_parsed [of ?u OAUTH2_CONF_TIMEOUT "''abc''"
          "OAUTH2_DEFAULT_TIMEOUT example_defaults" example_defaults "(SASL_OK, None)"]
        ok
      by blast
    then show ?thesis
      using tv dt by simp
  qed
  show ?thesis
    using 1 2 3 4 5 6 7 8 9 ok ld by simp
qed

subsection \<open>Boolean settings\<close>

text \<open>
  C7: for a present boolean setting, \<^verbatim>\<open>oauth2_config_get_bool\<close> gives 1 exactly when the
  value equals \<open>yes\<close>, \<open>true\<close> or \<open>1\<close> without regard to case, and 0 for any other
  value; a successful load stores these results for the signature, TLS and debug
  settings.
\<close>

theorem bool_setting_truthy:
  "(getopt u key = (SASL_OK, Some v) \<and> c_string v \<longrightarrow>
      oauth2_config_get_bool u key dv =
        (if equal_ignoring_case v ''yes'' \<or> equal_ignoring_case v ''true''
            \<or> equal_ignoring_case v ''1'' then 1 else 0))
   \<and> (sasl_code (oauth2_config_load d (oauth2_config_init True) (Some u)) = Some SASL_OK \<longrightarrow>
      map_option verify_signature
          (config_after (oauth2_config_load d (oauth2_config_init True) (Some u))) =
        Some (oauth2_config_get_bool u OAUTH2_CONF_VERIFY_SIGNATURE
                (OAUTH2_DEFAULT_VERIFY_SIGNATURE d))
      \<and> map_option ssl_verify
          (config_after (oauth2_config_load d (oauth2_config_init True) (Some u))) =
        Some (oauth2_config_get_bool u OAUTH2_CONF_SSL_VERIFY (OAUTH2_DEFAULT_SSL_VERIFY d))
      \<and> map_option debug
          (config_after (oauth2_config_load d (oauth2_config_init True) (Some u))) =
        Some (oauth2_config_get_bool u OAUTH2_CONF_DEBUG (OAUTH2_DEFAULT_DEBUG d)))"
proof (intro conjI impI)
  assume "getopt u key = (SASL_OK, Some v) \<and> c_string v"
  then show "oauth2_config_get_bool u key dv =
        (if equal_ignoring_case v ''yes'' \<or> equal_ignoring_case v ''true''
            \<or> equal_ignoring_case v ''1'' then 1 else 0)"
    using get_bool_present [of u key v dv] by blast
next
  assume "sasl_code (oauth2_config_load d (oauth2_config_init True) (Some u)) = Some SASL_OK"
  then obtain c where c:
    "config_after (oauth2_config_load d (oauth2_config_init True) (Some u)) = Some c"
    "verify_signature c =
         oauth2_config_get_bool u OAUTH2_CONF_VERIFY_SIGNATURE (OAUTH2_DEFAULT_VERIFY_SIGNATURE d)"
    "ssl_verify c = oauth2_config_get_bool u OAUTH2_CONF_SSL_VERIFY (OAUTH2_DEFAULT_SSL_VERIFY d)"
    "debug c = oauth2_config_get_bool u OAUTH2_CONF_DEBUG (OAUTH2_DEFAULT_DEBUG d)"
    using load_fresh_scalars [of d u] by blast
  show "map_option verify_signature
          (config_after (oauth2_config_load d (oauth2_config_init True) (Some u))) =
        Some (oauth2_config_get_bool u OAUTH2_CONF_VERIFY_SIGNATURE
                (OAUTH2_DEFAULT_VERIFY_SIGNATURE d))"
    using c by simp
  show "map_option ssl_verify
          (config_after (oauth2_config_load d (oauth2_config_init True) (Some u))) =
        Some (oauth2_config_get_bool u OAUTH2_CONF_SSL_VERIFY (OAUTH2_DEFAULT_SSL_VERIFY d))"
    using c by simp
  show "map_option debug
          (config_after (oauth2_config_load d (oauth2_config_init True) (Some u))) =
        Some (oauth2_config_get_bool u OAUTH2_CONF_DEBUG (OAUTH2_DEFAULT_DEBUG d))"
    using c by simp
qed

theorem bool_setting_truthy_witness:
  "getopt server_getopt OAUTH2_CONF_VERIFY_SIGNATURE = (SASL_OK, Some ''no'')
   \<and> c_string ''no''
   \<and> sasl_code (oauth2_config_load example_defaults (oauth2_config_init True)
        (Some server_getopt)) = Some SASL_OK
   \<and> map_option verify_signature
        (config_after (oauth2_config_load example_defaults (oauth2_config_init True)
           (Some server_getopt))) = Some 0
   \<and> getopt (settings_store [(OAUTH2_CONF_DEBUG, ''TRUE'')]) OAUTH2_CONF_DEBUG
        = (SASL_OK, Some ''TRUE'')
   \<and> c_string ''TRUE''
   \<and> oauth2_config_get_bool (settings_store [(OAUTH2_CONF_DEBUG, ''TRUE'')])
        OAUTH2_CONF_DEBUG 0 = 1
   \<and> getopt (settings_store [(OAUTH2_CONF_DEBUG, ''on'')]) OAUTH2_CONF_DEBUG
        = (SASL_OK, Some ''on'')
   \<and> c_string ''on''
   \<and> oauth2_config_get_bool (settings_store [(OAUTH2_CONF_DEBUG, ''on'')])
        OAUTH2_CONF_DEBUG 1 = 0"
proof -
  have a: "getopt server_getopt OAUTH2_CONF_VERIFY_SIGNATURE = (SASL_OK, Some ''no'')"
    by (simp add: server_getopt_def settings_store_getopt)
  have b: "c_string ''no''" "c_string ''TRUE''" "c_string ''on''"
    by (simp_all add: c_string_def)
  have v: "oauth2_config_get_bool server_getopt OAUTH2_CONF_VERIFY_SIGNATURE
      (OAUTH2_DEFAULT_VERIFY_SIGNATURE example_defaults) = 0"
    using bool_setting_truthy [of server_getopt OAUTH2_CONF_VERIFY_SIGNATURE "''no''"
      "OAUTH2_DEFAULT_VERIFY_SIGNATURE example_defaults" example_defaults] a b(1)
    by (simp add: equal_ignoring_case_def same_ignoring_case_def)
  have l: "map_option verify_signature
        (config_after (oauth2_config_load example_defaults (oauth2_config_init True)
           (Some server_getopt))) = Some 0"
    using bool_setting_truthy [of server_getopt OAUTH2_CONF_VERIFY_SIGNATURE "''no''"
      "OAUTH2_DEFAULT_VERIFY_SIGNATURE example_defaults" example_defaults] server_getopt_loads v
    by simp
  have t: "getopt (settings_store [(OAUTH2_CONF_DEBUG, ''TRUE'')]) OAUTH2_CONF_DEBUG
        = (SASL_OK, Some ''TRUE'')"
    by (simp add: settings_store_getopt)
  have tv: "oauth2_config_get_bool (settings_store [(OAUTH2_CONF_DEBUG, ''TRUE'')])
        OAUTH2_CONF_DEBUG 0 = 1"
    using bool_setting_truthy [of "settings_store [(OAUTH2_CONF_DEBUG, ''TRUE'')]"
      OAUTH2_CONF_DEBUG "''TRUE''" 0 example_defaults] t b(2)
    by (simp add: equal_ignoring_case_def same_ignoring_case_def)
  have f: "getopt (settings_store [(OAUTH2_CONF_DEBUG, ''on'')]) OAUTH2_CONF_DEBUG
        = (SASL_OK, Some ''on'')"
    by (simp add: settings_store_getopt)
  have fv: "oauth2_config_get_bool (settings_store [(OAUTH2_CONF_DEBUG, ''on'')])
        OAUTH2_CONF_DEBUG 1 = 0"
    using bool_setting_truthy [of "settings_store [(OAUTH2_CONF_DEBUG, ''on'')]"
      OAUTH2_CONF_DEBUG "''on''" 1 example_defaults] f b(3)
    by (simp add: equal_ignoring_case_def same_ignoring_case_def)
  show ?thesis
    using a b v l t tv f fv server_getopt_loads by simp
qed

section \<open>Theorems about the wire messages, the mechanism and the validator\<close>

subsection \<open>Auxiliary facts\<close>

lemma takeWhile_field:
  "x \<notin> set u \<Longrightarrow> takeWhile (\<lambda>c. c \<noteq> x) (u @ x # rest) = u"
  by (induction u) auto

lemma dropWhile_field:
  "x \<notin> set u \<Longrightarrow> dropWhile (\<lambda>c. c \<noteq> x) (u @ x # rest) = x # rest"
  by (induction u) auto

lemma takeWhile_field_iff:
  "takeWhile (\<lambda>c. c \<noteq> x) (u @ x # rest) = u \<longleftrightarrow> x \<notin> set u"
proof
  assume "takeWhile (\<lambda>c. c \<noteq> x) (u @ x # rest) = u"
  then have "set u = set (takeWhile (\<lambda>c. c \<noteq> x) (u @ x # rest))" by simp
  then show "x \<notin> set u"
    using set_takeWhileD [of x "\<lambda>c. c \<noteq> x" "u @ x # rest"] by blast
next
  assume "x \<notin> set u"
  then show "takeWhile (\<lambda>c. c \<noteq> x) (u @ x # rest) = u" by (rule takeWhile_field)
qed

lemma parse_xoauth2_built:
  "parse_xoauth2 (''user='' @ u @ CHR 0x01 # ''auth=Bearer '' @ t @ [CHR 0x01, CHR 0x01]) = Inr (u, t)
   \<longleftrightarrow> CHR 0x01 \<notin> set u \<and> CHR 0x01 \<notin> set t"
proof (cases "CHR 0x01 \<in> set u")
  case True
  then show ?thesis
    by (auto simp: parse_xoauth2_def strip_prefix_def takeWhile_field_iff
        split: option.splits if_splits)
next
  case False
  note u = this
  show ?thesis
  proof (cases "CHR 0x01 \<in> set t")
    case True
    with u show ?thesis
      by (auto simp: parse_xoauth2_def strip_prefix_def takeWhile_field dropWhile_field
          takeWhile_field_iff split: option.splits if_splits)
  next
    case False
    with u show ?thesis
      by (simp add: parse_xoauth2_def strip_prefix_def takeWhile_field dropWhile_field)
  qed
qed

lemma create_xoauth2_string_text:
  "create_xoauth2_string (Some u) (Some t) =
     Some (''user='' @ u @ CHR 0x1A # ''uth=Bearer '' @ t @ [CHR 0x01, CHR 0x01])"
  by (simp add: create_xoauth2_string_def snprintf_def)

lemma create_oauthbearer_string_text:
  "create_oauthbearer_string (Some u) (Some t) =
     Some (''n,a='' @ u @ CHR '','' # CHR 0x1A # ''uth=Bearer '' @ t @ [CHR 0x01, CHR 0x01])"
  by (simp add: create_oauthbearer_string_def snprintf_def)

lemma takeWhile_past_field: "P x \<Longrightarrow> takeWhile P (u @ x # rest) \<noteq> u"
  by (induction u) auto

lemma parse_xoauth2_name:
  "parse_xoauth2 (''user='' @ r) = Inr (name, token) \<Longrightarrow>
   name = takeWhile (\<lambda>c. c \<noteq> CHR 0x01) r"
  by (auto simp: parse_xoauth2_def strip_prefix_def split: option.splits if_splits)

lemma parse_xoauth2_helper_never:
  "parse_xoauth2 (''user='' @ u @ CHR 0x1A # ''uth=Bearer '' @ t @ [CHR 0x01, CHR 0x01])
     \<noteq> Inr (u, t)"
proof
  assume "parse_xoauth2 (''user='' @ u @ CHR 0x1A # ''uth=Bearer '' @ t @ [CHR 0x01, CHR 0x01])
     = Inr (u, t)"
  then have "u = takeWhile (\<lambda>c. c \<noteq> CHR 0x01)
      (u @ CHR 0x1A # ''uth=Bearer '' @ t @ [CHR 0x01, CHR 0x01])"
    by (rule parse_xoauth2_name)
  moreover have "takeWhile (\<lambda>c. c \<noteq> CHR 0x01)
      (u @ CHR 0x1A # ''uth=Bearer '' @ t @ [CHR 0x01, CHR 0x01]) \<noteq> u"
    by (rule takeWhile_past_field) simp
  ultimately show False by simp
qed

lemma parse_xoauth2_helper_rejected:
  assumes "CHR 0x01 \<notin> set u" and "CHR 0x01 \<notin> set t"
  shows "parse_xoauth2 (''user='' @ u @ CHR 0x1A # ''uth=Bearer '' @ t @ [CHR 0x01, CHR 0x01])
     = Inl FormatError"
proof -
  let ?body = "u @ CHR 0x1A # ''uth=Bearer '' @ t"
  have b: "CHR 0x01 \<notin> set ?body"
    using assms by simp
  have e: "u @ CHR 0x1A # ''uth=Bearer '' @ t @ [CHR 0x01, CHR 0x01] = ?body @ CHR 0x01 # [CHR 0x01]"
    by simp
  have d: "dropWhile (\<lambda>c. c \<noteq> CHR 0x01)
      (u @ CHR 0x1A # ''uth=Bearer '' @ t @ [CHR 0x01, CHR 0x01]) = [CHR 0x01, CHR 0x01]"
    unfolding e using b by (rule dropWhile_field)
  have s: "strip_prefix ''user=''
      (''user='' @ u @ CHR 0x1A # ''uth=Bearer '' @ t @ [CHR 0x01, CHR 0x01]) =
      Some (u @ CHR 0x1A # ''uth=Bearer '' @ t @ [CHR 0x01, CHR 0x01])"
    by (simp add: strip_prefix_def)
  have n: "strip_prefix (CHR 0x01 # ''auth=Bearer '') [CHR 0x01, CHR 0x01] = None"
    by (simp add: strip_prefix_def)
  show ?thesis
    unfolding parse_xoauth2_def s option.case d n by simp
qed

lemma step_start_invalid:
  assumes "parse_oauthbearer m = Inr (name, token)" and "validator token = Inl e"
  shows "oauthbearer_step validator describe new_session m =
     (Continue (error_continuation describe e),
      new_session\<lparr>state := AwaitingContinuation, last_error := Some e\<rparr>)"
  using assms by (simp add: oauthbearer_step_def new_session_def)

lemma step_awaiting:
  "oauthbearer_step validator describe
      (new_session\<lparr>state := AwaitingContinuation, last_error := Some e\<rparr>) ack =
     (Failure e, new_session\<lparr>state := Done, last_error := Some e\<rparr>)"
  by (simp add: oauthbearer_step_def new_session_def)

lemma first_failure_Cons:
  "first_failure (r # rs) = (case r of Some e \<Rightarrow> Some e | None \<Rightarrow> first_failure rs)"
  by (cases r) (simp_all add: first_failure_def)

lemma first_failure_Nil: "first_failure [] = None"
  by (simp add: first_failure_def)

subsection \<open>The single-step wire message\<close>

text \<open>
  C8: building the single-step message \<^verbatim>\<open>user=<u>^Aauth=Bearer <t>^A^A\<close> for a username
  \<open>u\<close> and a token \<open>t\<close> and parsing it gives back \<open>u\<close> and \<open>t\<close>. The parser does so
  on the message of that format when neither field holds \<open>^A\<close>. The helper
  \<^verbatim>\<open>create_xoauth2_string\<close> does not build that message: for every \<open>u\<close> and \<open>t\<close> it
  puts the byte \<open>0x1A\<close> and \<^verbatim>\<open>uth=Bearer \<close> between the fields, against the format its
  own comment gives, so parsing what it builds never gives back \<open>u\<close> and \<open>t\<close>, and is
  a format error when neither field holds \<open>^A\<close>.
\<close>

theorem create_xoauth2_string_bytes:
  "create_xoauth2_string (Some u) (Some t) =
     Some (''user='' @ u @ CHR 0x1A # ''uth=Bearer '' @ t @ [CHR 0x01, CHR 0x01])
   \<and> create_xoauth2_string (Some u) (Some t) \<noteq>
     Some (''user='' @ u @ CHR 0x01 # ''auth=Bearer '' @ t @ [CHR 0x01, CHR 0x01])
   \<and> map_option parse_xoauth2 (create_xoauth2_string (Some u) (Some t)) \<noteq> Some (Inr (u, t))
   \<and> (CHR 0x01 \<notin> set u \<and> CHR 0x01 \<notin> set t \<longrightarrow>
        map_option parse_xoauth2 (create_xoauth2_string (Some u) (Some t)) =
          Some (Inl FormatError)
        \<and> parse_xoauth2
            (''user='' @ u @ CHR 0x01 # ''auth=Bearer '' @ t @ [CHR 0x01, CHR 0x01]) =
          Inr (u, t))"
proof (intro conjI impI)
  show "create_xoauth2_string (Some u) (Some t) =
     Some (''user='' @ u @ CHR 0x1A # ''uth=Bearer '' @ t @ [CHR 0x01, CHR 0x01])"
    by (rule create_xoauth2_string_text)
  show "create_xoauth2_string (Some u) (Some t) \<noteq>
     Some (''user='' @ u @ CHR 0x01 # ''auth=Bearer '' @ t @ [CHR 0x01, CHR 0x01])"
    by (simp add: create_xoauth2_string_text)
  show "map_option parse_xoauth2 (create_xoauth2_string (Some u) (Some t)) \<noteq> Some (Inr (u, t))"
    using parse_xoauth2_helper_never [of u t]
    by (simp only: create_xoauth2_string_text option.map option.inject not_False_eq_True)
next
  assume a: "CHR 0x01 \<notin> set u \<and> CHR 0x01 \<notin> set t"
  show "map_option parse_xoauth2 (create_xoauth2_string (Some u) (Some t)) =
          Some (Inl FormatError)"
  proof -
    from a have "parse_xoauth2
        (''user='' @ u @ CHR 0x1A # ''uth=Bearer '' @ t @ [CHR 0x01, CHR 0x01]) = Inl FormatError"
      by (intro parse_xoauth2_helper_rejected) simp_all
    then show ?thesis
      by (simp only: create_xoauth2_string_text option.map)
  qed
  show "parse_xoauth2
            (''user='' @ u @ CHR 0x01 # ''auth=Bearer '' @ t @ [CHR 0x01, CHR 0x01]) =
          Inr (u, t)"
    using a parse_xoauth2_built [of u t] by blast
qed

theorem create_xoauth2_string_bytes_witness:
  "CHR 0x01 \<notin> set ''test@test.com'' \<and> CHR 0x01 \<notin> set ''invalid.jwt.token''
   \<and> create_xoauth2_string (Some ''test@test.com'') (Some ''invalid.jwt.token'') =
       Some (''user=test@test.com'' @ CHR 0x1A # ''uth=Bearer invalid.jwt.token''
               @ [CHR 0x01, CHR 0x01])
   \<and> map_option parse_xoauth2
        (create_xoauth2_string (Some ''test@test.com'') (Some ''invalid.jwt.token'')) =
       Some (Inl FormatError)
   \<and> parse_xoauth2
        (''user=test@test.com'' @ CHR 0x01 # ''auth=Bearer invalid.jwt.token''
           @ [CHR 0x01, CHR 0x01]) =
       Inr (''test@test.com'', ''invalid.jwt.token'')"
proof -
  have h: "CHR 0x01 \<notin> set ''test@test.com'' \<and> CHR 0x01 \<notin> set ''invalid.jwt.token''"
    by simp
  have b: "create_xoauth2_string (Some ''test@test.com'') (Some ''invalid.jwt.token'') =
       Some (''user=test@test.com'' @ CHR 0x1A # ''uth=Bearer invalid.jwt.token''
               @ [CHR 0x01, CHR 0x01])"
    using create_xoauth2_string_bytes [of "''test@test.com''" "''invalid.jwt.token''",
        THEN conjunct1]
    by simp
  have p: "map_option parse_xoauth2
        (create_xoauth2_string (Some ''test@test.com'') (Some ''invalid.jwt.token'')) =
       Some (Inl FormatError)
     \<and> parse_xoauth2
        (''user='' @ ''test@test.com'' @ CHR 0x01 # ''auth=Bearer '' @ ''invalid.jwt.token''
           @ [CHR 0x01, CHR 0x01]) =
       Inr (''test@test.com'', ''invalid.jwt.token'')"
    using create_xoauth2_string_bytes [of "''test@test.com''" "''invalid.jwt.token''"] h
    by blast
  have q: "parse_xoauth2
        (''user=test@test.com'' @ CHR 0x01 # ''auth=Bearer invalid.jwt.token''
           @ [CHR 0x01, CHR 0x01]) =
       Inr (''test@test.com'', ''invalid.jwt.token'')"
    using p by simp
  show ?thesis
    using h b p q by blast
qed

subsection \<open>The two-step mechanism on an invalid token\<close>

text \<open>
  C5: when the initial client message of the two-step mechanism parses and its token
  does not validate, the first step does not end the exchange: it answers with the JSON
  error continuation, which has a \<open>status\<close> field, and leaves the session in
  \<open>AwaitingContinuation\<close>; the step on the empty acknowledgement ends in failure. An
  exchange of one round is not over, an exchange with a further client message is one
  continuation followed by the failure, and no exchange that starts with this message
  holds a success.
\<close>

theorem two_step_invalid_token:
  "parse_oauthbearer m = Inr (name, token) \<and> validator token = Inl e \<longrightarrow>
     oauthbearer_step validator describe new_session m =
       (Continue (error_continuation describe e),
        new_session\<lparr>state := AwaitingContinuation, last_error := Some e\<rparr>)
     \<and> json_field ''status'' (error_continuation describe e) = Some (JString (fst (describe e)))
     \<and> oauthbearer_step validator describe
          (new_session\<lparr>state := AwaitingContinuation, last_error := Some e\<rparr>) [] =
        (Failure e, new_session\<lparr>state := Done, last_error := Some e\<rparr>)
     \<and> run_exchange validator describe new_session [m] =
        [Continue (error_continuation describe e)]
     \<and> run_exchange validator describe new_session [m, []] =
        [Continue (error_continuation describe e), Failure e]
     \<and> (\<forall>ack ms. run_exchange validator describe new_session (m # ack # ms) =
        [Continue (error_continuation describe e), Failure e])
     \<and> (\<forall>ms user. Success user \<notin> set (run_exchange validator describe new_session (m # ms)))"
proof (intro impI)
  assume a: "parse_oauthbearer m = Inr (name, token) \<and> validator token = Inl e"
  let ?j = "error_continuation describe e"
  let ?s1 = "new_session\<lparr>state := AwaitingContinuation, last_error := Some e\<rparr>"
  have s0: "oauthbearer_step validator describe new_session m = (Continue ?j, ?s1)"
    using a by (simp add: step_start_invalid)
  have s1: "\<And>ack. oauthbearer_step validator describe ?s1 ack =
      (Failure e, new_session\<lparr>state := Done, last_error := Some e\<rparr>)"
    by (rule step_awaiting)
  have r1: "run_exchange validator describe new_session [m] = [Continue ?j]"
    by (simp add: s0)
  have r2: "\<And>ack ms. run_exchange validator describe new_session (m # ack # ms) =
      [Continue ?j, Failure e]"
    by (simp add: s0 s1)
  have ns: "\<And>ms user. Success user \<notin> set (run_exchange validator describe new_session (m # ms))"
  proof -
    fix ms :: "string list" and user
    show "Success user \<notin> set (run_exchange validator describe new_session (m # ms))"
    proof (cases ms)
      case Nil
      then show ?thesis using r1 by simp
    next
      case (Cons ack ms')
      then show ?thesis using r2 [of ack ms'] by simp
    qed
  qed
  have st: "json_field ''status'' ?j = Some (JString (fst (describe e)))"
    by (simp add: error_continuation_def)
  show "oauthbearer_step validator describe new_session m = (Continue ?j, ?s1)
     \<and> json_field ''status'' ?j = Some (JString (fst (describe e)))
     \<and> oauthbearer_step validator describe ?s1 [] =
        (Failure e, new_session\<lparr>state := Done, last_error := Some e\<rparr>)
     \<and> run_exchange validator describe new_session [m] = [Continue ?j]
     \<and> run_exchange validator describe new_session [m, []] = [Continue ?j, Failure e]
     \<and> (\<forall>ack ms. run_exchange validator describe new_session (m # ack # ms) =
        [Continue ?j, Failure e])
     \<and> (\<forall>ms user. Success user \<notin> set (run_exchange validator describe new_session (m # ms)))"
    using s0 s1 r1 r2 ns st by blast
qed

theorem two_step_invalid_token_witness:
  "parse_oauthbearer
     (''n,a=test@test.com,'' @ CHR 0x01 # ''auth=Bearer invalid.jwt.token'' @ [CHR 0x01, CHR 0x01]) =
     Inr (''test@test.com'', ''invalid.jwt.token'')
   \<and> (\<lambda>token. Inl FormatError :: attempt_error + string) ''invalid.jwt.token'' = Inl FormatError
   \<and> oauthbearer_step (\<lambda>token. Inl FormatError) (\<lambda>e. (''invalid_token'', ''token rejected''))
        new_session
        (''n,a=test@test.com,'' @ CHR 0x01 # ''auth=Bearer invalid.jwt.token''
           @ [CHR 0x01, CHR 0x01]) =
      (Continue (JObject [(''status'', JString ''invalid_token''),
                          (''message'', JString ''token rejected'')]),
       new_session\<lparr>state := AwaitingContinuation, last_error := Some FormatError\<rparr>)
   \<and> run_exchange (\<lambda>token. Inl FormatError) (\<lambda>e. (''invalid_token'', ''token rejected''))
        new_session
        [''n,a=test@test.com,'' @ CHR 0x01 # ''auth=Bearer invalid.jwt.token'' @ [CHR 0x01, CHR 0x01],
         []] =
      [Continue (JObject [(''status'', JString ''invalid_token''),
                          (''message'', JString ''token rejected'')]),
       Failure FormatError]"
proof -
  have p: "parse_oauthbearer
     (''n,a=test@test.com,'' @ CHR 0x01 # ''auth=Bearer invalid.jwt.token'' @ [CHR 0x01, CHR 0x01]) =
     Inr (''test@test.com'', ''invalid.jwt.token'')"
    by (simp add: parse_oauthbearer_def strip_prefix_def)
  show ?thesis
    using p two_step_invalid_token
      [of "''n,a=test@test.com,'' @ CHR 0x01 # ''auth=Bearer invalid.jwt.token'' @ [CHR 0x01, CHR 0x01]"
        "''test@test.com''" "''invalid.jwt.token''" "\<lambda>token. Inl FormatError" FormatError
        "\<lambda>e. (''invalid_token'', ''token rejected'')"]
    by (simp add: error_continuation_def)
qed

subsection \<open>The order of the validator's checks\<close>

text \<open>
  C4: for every time, configuration, signature verdict and token the validator gives
  the error of the first failing check in the order temporal, issuer, audience,
  signature, and goes on to the username only when none fails: a failing temporal check
  decides the error whatever the later checks say, a failing issuer check does once the
  temporal check passed, and so on.
\<close>

theorem validation_order:
  "validate now cfg signature_ok c =
     (case first_failure [check_temporal now c, check_issuer cfg c, check_audience cfg c,
                          check_signature cfg signature_ok] of
        Some e \<Rightarrow> Inl e
      | None \<Rightarrow> extract_username c)
   \<and> (check_temporal now c = Some e \<longrightarrow> validate now cfg signature_ok c = Inl e)
   \<and> (check_temporal now c = None \<and> check_issuer cfg c = Some e \<longrightarrow>
        validate now cfg signature_ok c = Inl e)
   \<and> (check_temporal now c = None \<and> check_issuer cfg c = None \<and> check_audience cfg c = Some e \<longrightarrow>
        validate now cfg signature_ok c = Inl e)
   \<and> (check_temporal now c = None \<and> check_issuer cfg c = None \<and> check_audience cfg c = None
        \<and> check_signature cfg signature_ok = Some e \<longrightarrow>
        validate now cfg signature_ok c = Inl e)"
  by (simp add: validate_def first_failure_Cons first_failure_Nil split: option.splits)

theorem validation_order_witness:
  "check_temporal 1000
      \<lparr>iss = Some ''https://other.example'', aud = [''other''], exp = Some 999, nbf = None,
       username_value = None\<rparr> = Some Expired
   \<and> check_issuer
      \<lparr>accepted_issuers = [''https://test.issuer.com''], accepted_audiences = [''test_audience''],
       signature_verification = True\<rparr>
      \<lparr>iss = Some ''https://other.example'', aud = [''other''], exp = Some 999, nbf = None,
       username_value = None\<rparr> = Some IssuerMismatch
   \<and> validate 1000
      \<lparr>accepted_issuers = [''https://test.issuer.com''], accepted_audiences = [''test_audience''],
       signature_verification = True\<rparr> False
      \<lparr>iss = Some ''https://other.example'', aud = [''other''], exp = Some 999, nbf = None,
       username_value = None\<rparr> = Inl Expired
   \<and> check_temporal 1000
      \<lparr>iss = Some ''https://other.example'', aud = [''other''], exp = Some 2000, nbf = None,
       username_value = None\<rparr> = None
   \<and> validate 1000
      \<lparr>accepted_issuers = [''https://test.issuer.com''], accepted_audiences = [''test_audience''],
       signature_verification = True\<rparr> False
      \<lparr>iss = Some ''https://other.example'', aud = [''other''], exp = Some 2000, nbf = None,
       username_value = None\<rparr> = Inl IssuerMismatch"
proof -
  let ?cfg = "\<lparr>accepted_issuers = [''https://test.issuer.com''],
       accepted_audiences = [''test_audience''], signature_verification = True\<rparr>"
  let ?old = "\<lparr>iss = Some ''https://other.example'', aud = [''other''], exp = Some 999,
       nbf = None, username_value = None\<rparr>"
  let ?new = "\<lparr>iss = Some ''https://other.example'', aud = [''other''], exp = Some 2000,
       nbf = None, username_value = None\<rparr>"
  have t1: "check_temporal 1000 ?old = Some Expired"
    by (simp add: check_temporal_def)
  have t2: "check_temporal 1000 ?new = None"
    by (simp add: check_temporal_def)
  have i1: "check_issuer ?cfg ?old = Some IssuerMismatch"
    by (simp add: check_issuer_def)
  have i2: "check_issuer ?cfg ?new = Some IssuerMismatch"
    by (simp add: check_issuer_def)
  have v1: "validate 1000 ?cfg False ?old = Inl Expired"
    using validation_order [of 1000 ?cfg False ?old Expired] t1 by blast
  have v2: "validate 1000 ?cfg False ?new = Inl IssuerMismatch"
    using validation_order [of 1000 ?cfg False ?new IssuerMismatch] t2 i2 by blast
  show ?thesis
    using t1 t2 i1 v1 v2 by blast
qed

end
